theory Spec2Isabelle
  imports Complex_Main "HOL-Library.Word" "HOL-Library.Multiset"
begin

section \<open>Values of the Go program\<close>

subsection \<open>float64\<close>

text \<open>
  A \<open>float64\<close> is modelled as an exact real number or one of the three IEEE special
  values. Rounding of finite results, overflow of finite results to an infinity and the sign
  of zero are not modelled: every finite operation below is the exact real operation, and
  zero is the positive zero (the only divisor of the program that can be zero is
  \<open>float64(int64)\<close>, which is never the negative zero).
\<close>

datatype float64 = Finite real | PosInf | NegInf | NaN

fun fmul :: "float64 \<Rightarrow> float64 \<Rightarrow> float64" where
  "fmul NaN _ = NaN"
| "fmul _ NaN = NaN"
| "fmul (Finite x) (Finite y) = Finite (x * y)"
| "fmul (Finite x) PosInf = (if x = 0 then NaN else if 0 < x then PosInf else NegInf)"
| "fmul (Finite x) NegInf = (if x = 0 then NaN else if 0 < x then NegInf else PosInf)"
| "fmul PosInf (Finite y) = (if y = 0 then NaN else if 0 < y then PosInf else NegInf)"
| "fmul NegInf (Finite y) = (if y = 0 then NaN else if 0 < y then NegInf else PosInf)"
| "fmul PosInf PosInf = PosInf"
| "fmul PosInf NegInf = NegInf"
| "fmul NegInf PosInf = NegInf"
| "fmul NegInf NegInf = PosInf"

fun fdiv :: "float64 \<Rightarrow> float64 \<Rightarrow> float64" where
  "fdiv NaN _ = NaN"
| "fdiv _ NaN = NaN"
| "fdiv (Finite x) (Finite y) =
     (if y = 0 then (if x = 0 then NaN else if 0 < x then PosInf else NegInf)
      else Finite (x / y))"
| "fdiv (Finite x) PosInf = Finite 0"
| "fdiv (Finite x) NegInf = Finite 0"
| "fdiv PosInf (Finite y) = (if 0 \<le> y then PosInf else NegInf)"
| "fdiv NegInf (Finite y) = (if 0 \<le> y then NegInf else PosInf)"
| "fdiv PosInf PosInf = NaN"
| "fdiv PosInf NegInf = NaN"
| "fdiv NegInf PosInf = NaN"
| "fdiv NegInf NegInf = NaN"

fun fsub :: "float64 \<Rightarrow> float64 \<Rightarrow> float64" where
  "fsub NaN _ = NaN"
| "fsub _ NaN = NaN"
| "fsub (Finite x) (Finite y) = Finite (x - y)"
| "fsub (Finite x) PosInf = NegInf"
| "fsub (Finite x) NegInf = PosInf"
| "fsub PosInf (Finite y) = PosInf"
| "fsub NegInf (Finite y) = NegInf"
| "fsub PosInf PosInf = NaN"
| "fsub PosInf NegInf = PosInf"
| "fsub NegInf PosInf = NegInf"
| "fsub NegInf NegInf = NaN"

text \<open>The conversions \<open>float64(x)\<close> of a \<open>uint64\<close> and of an \<open>int64\<close>.\<close>

definition float64_of_uint64 :: "64 word \<Rightarrow> float64" where
  "float64_of_uint64 w = Finite (real (unat w))"

definition float64_of_int64 :: "int \<Rightarrow> float64" where
  "float64_of_int64 i = Finite (real_of_int i)"

subsection \<open>Panics and errors\<close>

text \<open>
  A Go function either returns or panics (an index out of range, a nil dereference, a
  \<open>Must...\<close> function of a library).
\<close>

datatype 'a outcome = Panics | Returns 'a

text \<open>
  The errors the program meets: those of the steps of an HTTP request and that of
  \<open>time.Parse\<close>. A result \<open>error option\<close> is \<open>None\<close> for \<open>nil\<close>.
\<close>

datatype error = NewRequestError | DoError | ReadAllError | UnmarshalError | ParseError

subsection \<open>strings.Split and fmt.Sprintf\<close>

text \<open>
  \<open>strings.Split(s, sep)\<close> for a separator of one byte, the only use in the program
  (\<open>sep = "/"\<close>): cut at the first separator, continue behind it; the rest without a
  separator is the last part.
\<close>

function strings_Split :: "string \<Rightarrow> char \<Rightarrow> string list" where
  "strings_Split s sep =
     (case dropWhile (\<lambda>c. c \<noteq> sep) s of
        [] \<Rightarrow> [s]
      | _ # rest \<Rightarrow> takeWhile (\<lambda>c. c \<noteq> sep) s # strings_Split rest sep)"
  by pat_completeness auto
termination
proof (relation "measure (\<lambda>(s, sep). length s)")
  show "wf (measure (\<lambda>(s, sep). length s))" by simp
next
  fix s :: string and sep c rest
  assume "dropWhile (\<lambda>c. c \<noteq> sep) s = c # rest"
  then have "length rest < length (dropWhile (\<lambda>c. c \<noteq> sep) s)" by simp
  also have "\<dots> \<le> length s" by (rule length_dropWhile_le)
  finally show "((rest, sep), (s, sep)) \<in> measure (\<lambda>(s, sep). length s)" by simp
qed

declare strings_Split.simps [simp del]

text \<open>\<open>fmt.Sprintf("%d", i)\<close> for an index \<open>i \<ge> 0\<close>.\<close>

fun Sprintf_d :: "nat \<Rightarrow> string" where
  "Sprintf_d n =
     (if n < 10 then [''0123456789'' ! n]
      else Sprintf_d (n div 10) @ [''0123456789'' ! (n mod 10)])"

declare Sprintf_d.simps [simp del]

section \<open>Package ecsmetadata\<close>

subsection \<open>The documents\<close>

record TaskMetadataLimits =
  CPU :: float64
  Memory :: float64

text \<open>
  One element of \<open>TaskMetadata.Containers\<close> (an anonymous struct in the source). Its
  nested \<open>Networks\<close> and \<open>ClockDrift\<close> lists are read by no function of the program and
  are left out.
\<close>

record Container =
  DockerID :: string
  Name :: string
  DockerName :: string
  ContainerImage :: string
  ImageID :: string
  Labels :: "string \<Rightarrow> string option"
  ContainerDesiredStatus :: string
  ContainerKnownStatus :: string
  CreatedAt :: string
  StartedAt :: string
  Type :: string
  ContainerARN :: string
  LogDriver :: string

record TaskMetadata =
  Cluster :: string
  TaskARN :: string
  TaskID :: string
  Family :: string
  Revision :: string
  DesiredStatus :: string
  KnownStatus :: string
  Limits :: TaskMetadataLimits
  PullStartedAt :: string
  PullStoppedAt :: string
  AvailabilityZone :: string
  LaunchType :: string
  Containers :: "Container list"

text \<open>The zero value of \<open>var out TaskMetadata\<close>.\<close>

definition TaskMetadata_zero :: TaskMetadata where
  "TaskMetadata_zero =
     \<lparr>Cluster = [], TaskARN = [], TaskID = [], Family = [], Revision = [],
      DesiredStatus = [], KnownStatus = [],
      Limits = \<lparr>CPU = Finite 0, Memory = Finite 0\<rparr>,
      PullStartedAt = [], PullStoppedAt = [], AvailabilityZone = [], LaunchType = [],
      Containers = []\<rparr>"

text \<open>
  The types of package \<open>dockertypes\<close> (github.com/docker/docker/api/types, the file the
  source's comment on its constants points to), with the fields the program reads:
  the usage counters are \<open>uint64\<close>, \<open>MemoryStats.Stats\<close> is a \<open>map[string]uint64\<close>.
\<close>

record CPUUsage =
  TotalUsage :: "64 word"
  PercpuUsage :: "64 word list"
  UsageInKernelmode :: "64 word"
  UsageInUsermode :: "64 word"

record CPUStats =
  CPUUsage :: CPUUsage
  SystemUsage :: "64 word"

record MemoryStats =
  Usage :: "64 word"
  MaxUsage :: "64 word"
  Stats :: "string \<Rightarrow> 64 word option"
  Failcnt :: "64 word"
  Limit :: "64 word"

text \<open>One value of the map \<open>ContainerStats.Networks\<close> (an anonymous struct).\<close>

record NetworkStats =
  RxBytes :: float64
  RxPackets :: float64
  RxErrors :: float64
  RxDropped :: float64
  TxBytes :: float64
  TxPackets :: float64
  TxErrors :: float64
  TxDropped :: float64

text \<open>
  \<open>ContainerStats\<close>. The map \<open>Networks\<close> is ranged over by the collector, so it is kept
  as the list of its entries (in no meaningful order: the order of a range statement is
  the runtime's choice, see \<open>range_map\<close>). \<open>BlkioStats\<close> and \<open>NetworkRateStats\<close> are read
  by no function of the program and are left out.
\<close>

record ContainerStats =
  StatsName :: string
  StatsID :: string
  NumProcs :: float64
  Read :: string
  PreRead :: string
  CPUStats :: CPUStats
  PreCPUStats :: CPUStats
  MemoryStats :: MemoryStats
  Networks :: "(string \<times> NetworkStats) list"

subsection \<open>The client\<close>

record Client =
  endpoint :: string

text \<open>
  What the metadata server and the libraries (\<open>net/http\<close>, \<open>io\<close>, \<open>encoding/json\<close>) do
  for one request, seen from \<open>Client.request\<close>: either one of the steps before the
  decoding fails and \<open>out\<close> is left untouched, or \<open>json.Unmarshal\<close> runs, leaves a value
  in \<open>out\<close> (partly filled when it fails) and returns its error.
\<close>

datatype 'a response = Fails error | Unmarshals 'a "error option"

fun request :: "'a response \<Rightarrow> 'a \<Rightarrow> 'a \<times> error option" where
  "request (Fails e) out = (out, Some e)"
| "request (Unmarshals v e) out = (v, e)"

text \<open>The outside world of one scrape: the answer to a GET of each URI, already typed.\<close>

record world =
  get_task :: "string \<Rightarrow> TaskMetadata response"
  get_stats :: "string \<Rightarrow> (string \<Rightarrow> ContainerStats option) response"

text \<open>
  \<open>SetTaskID\<close>: \<open>parts[len(parts)-1]\<close> panics when \<open>parts\<close> is empty.
\<close>

definition SetTaskID :: "TaskMetadata \<Rightarrow> TaskMetadata outcome" where
  "SetTaskID t =
     (let parts = strings_Split (TaskARN t) (CHR ''/'') in
      if parts = [] then Panics
      else Returns (t\<lparr>TaskID := parts ! (length parts - 1)\<rparr>))"

text \<open>
  \<open>RetrieveTaskMetadata\<close> returns the pointer \<open>&out\<close> (\<open>Some\<close>; \<open>None\<close> would be \<open>nil\<close>)
  and the error of the request.
\<close>

definition RetrieveTaskMetadata ::
  "world \<Rightarrow> Client \<Rightarrow> (TaskMetadata option \<times> error option) outcome" where
  "RetrieveTaskMetadata w c =
     (case request (get_task w (endpoint c @ ''/task'')) TaskMetadata_zero of
        (out, err) \<Rightarrow>
          (case SetTaskID out of
             Panics \<Rightarrow> Panics
           | Returns out' \<Rightarrow> Returns (Some out', err)))"

text \<open>
  \<open>RetrieveTaskStats\<close>: \<open>out\<close> starts as the empty map. An entry of the map is a pointer;
  a \<open>nil\<close> entry and a missing key both read as \<open>None\<close>.
\<close>

definition RetrieveTaskStats ::
  "world \<Rightarrow> Client \<Rightarrow> (string \<Rightarrow> ContainerStats option) \<times> error option" where
  "RetrieveTaskStats w c =
     request (get_stats w (endpoint c @ ''/task/stats'')) (\<lambda>_. None)"

section \<open>The Go runtime\<close>

text \<open>
  Three things the program's result depends on are not fixed by the source:
  \<^item> \<open>growcap c n\<close>: the capacity of the new array when \<open>append\<close> finds the capacity \<open>c\<close> of
    a slice too small for the \<open>n\<close> elements it needs (the language only promises that the
    new array is large enough);
  \<^item> \<open>rangeOrder place n\<close>: the order in which a range statement visits the \<open>n\<close> entries of
    a map, as a list of positions; \<open>place\<close> tells the executions of range statements of one
    run apart;
  \<^item> \<open>time_Parse layout value\<close>: the result of \<open>time.Parse\<close>, a time and an error. A time is
    its distance in nanoseconds from the zero \<open>Time\<close>.
\<close>

record runtime =
  growcap :: "nat \<Rightarrow> nat \<Rightarrow> nat"
  rangeOrder :: "nat list \<Rightarrow> nat \<Rightarrow> nat list"
  time_Parse :: "string \<Rightarrow> string \<Rightarrow> int \<times> error option"

text \<open>
  The entries of a map in the order a range statement visits them: each entry once. An
  answer of \<open>rangeOrder\<close> that is not a permutation of the positions is not an order, and
  the entries are visited as listed.
\<close>

definition range_map :: "runtime \<Rightarrow> nat list \<Rightarrow> 'a list \<Rightarrow> 'a list" where
  "range_map rt place entries =
     (let p = rangeOrder rt place (length entries) in
      if sort p = [0..<length entries] then map (\<lambda>i. entries ! i) p else entries)"

text \<open>
  \<open>Time.Sub\<close> followed by \<open>Duration.Nanoseconds\<close>: a \<open>Duration\<close> is an \<open>int64\<close> of
  nanoseconds, and \<open>Sub\<close> returns the largest or smallest duration when the difference does
  not fit.
\<close>

definition Sub_Nanoseconds :: "int \<Rightarrow> int \<Rightarrow> int" where
  "Sub_Nanoseconds t u = max (- (2 ^ 63)) (min (2 ^ 63 - 1) (t - u))"

subsection \<open>Slices of strings\<close>

text \<open>
  A slice is a pointer to an array, a length and a capacity; the heap holds the arrays,
  each as long as its capacity. Two slices with the same pointer share their array: a
  write through one of them shows in the other.
\<close>

record slice =
  ptr :: nat
  len :: nat
  cap :: nat

type_synonym heap = "string list list"

definition nil_slice :: slice where
  "nil_slice = \<lparr>ptr = 0, len = 0, cap = 0\<rparr>"

definition elems :: "heap \<Rightarrow> slice \<Rightarrow> string list" where
  "elems h s = take (len s) (h ! ptr s)"

text \<open>A slice literal \<open>[]string{...}\<close>: a new array, as long as the literal.\<close>

definition slice_lit :: "string list \<Rightarrow> heap \<Rightarrow> slice \<times> heap" where
  "slice_lit xs h = (\<lparr>ptr = length h, len = length xs, cap = length xs\<rparr>, h @ [xs])"

text \<open>
  \<open>append(s, xs...)\<close>: when the capacity of \<open>s\<close> suffices, the new elements are written
  into the array of \<open>s\<close> behind its length, and the result shares the array with \<open>s\<close>;
  otherwise a new array is allocated, of the capacity the runtime chooses (at least the
  length needed), the unused part holding empty strings.
\<close>

definition append_go :: "runtime \<Rightarrow> slice \<Rightarrow> string list \<Rightarrow> heap \<Rightarrow> slice \<times> heap" where
  "append_go rt s xs h =
     (let n = len s + length xs in
      if n \<le> cap s
      then (s\<lparr>len := n\<rparr>,
            h[ptr s := take (len s) (h ! ptr s) @ xs @ drop n (h ! ptr s)])
      else (let c = max n (growcap rt (cap s) n) in
            (\<lparr>ptr = length h, len = n, cap = c\<rparr>,
             h @ [take (len s) (h ! ptr s) @ xs @ replicate (c - n) []])))"

section \<open>Package prometheus, as far as the collector uses it\<close>

text \<open>
  A descriptor keeps the label names it is given (\<open>NewDesc\<close> is called with no constant
  labels). \<open>MustNewConstMetric\<close> panics when the number of label values is not the number
  of label names of the descriptor. The library's checks of the names themselves (a name
  that is not a legal label name, a name given twice) are not modelled.
\<close>

record Desc =
  fqName :: string
  helpText :: string
  variableLabels :: "string list"

definition NewDesc :: "string \<Rightarrow> string \<Rightarrow> string list \<Rightarrow> Desc" where
  "NewDesc name hlp lbls = \<lparr>fqName = name, helpText = hlp, variableLabels = lbls\<rparr>"

datatype ValueType = CounterValue | GaugeValue

record Metric =
  desc :: Desc
  valType :: ValueType
  val :: float64
  labelValues :: "string list"

definition MustNewConstMetric ::
  "Desc \<Rightarrow> ValueType \<Rightarrow> float64 \<Rightarrow> string list \<Rightarrow> Metric outcome" where
  "MustNewConstMetric d vt v lvs =
     (if length lvs \<noteq> length (variableLabels d) then Panics
      else Returns \<lparr>desc = d, valType = vt, val = v, labelValues = lvs\<rparr>)"

section \<open>Package ecscollector\<close>

definition nanoSeconds :: float64 where "nanoSeconds = Finite 1000000000"
definition timeLayout :: string where "timeLayout = ''2006-01-02T15:04:05.999999999Z''"
definition cpuIn1Vcpu :: float64 where "cpuIn1Vcpu = Finite 1024"
definition bytesInMiB :: float64 where "bytesInMiB = Finite (1024 * 1024)"

text \<open>
  The package-level variables. The five label slices are package-level variables too;
  only \<open>NewCollector\<close> reads them, where they are local names of the model, and the
  record keeps the descriptors.
\<close>

record globals =
  metadataDesc :: Desc
  svcCpuLimitDesc :: Desc
  svcMemLimitDesc :: Desc
  cpuTotalDesc :: Desc
  cpuUtilizedDesc :: Desc
  memoryUtilizedDesc :: Desc
  memUsageDesc :: Desc
  memLimitDesc :: Desc
  memCacheUsageDesc :: Desc
  networkRxBytesDesc :: Desc
  networkRxPacketsDesc :: Desc
  networkRxDroppedDesc :: Desc
  networkRxErrorsDesc :: Desc
  networkTxBytesDesc :: Desc
  networkTxPacketsDesc :: Desc
  networkTxDroppedDesc :: Desc
  networkTxErrorsDesc :: Desc

subsection \<open>NewCollector\<close>

text \<open>
  The loop \<open>for key, value := range customLabels\<close> over the entries in the order of the
  range statement: one \<open>append\<close> to each of the two slices per entry.
\<close>

fun custom_loop ::
  "runtime \<Rightarrow> (string \<times> string) list \<Rightarrow> slice \<times> slice \<times> heap \<Rightarrow> slice \<times> slice \<times> heap" where
  "custom_loop rt [] st = st"
| "custom_loop rt ((key, value) # rest) (customLabelKeys, customLabelValues, h) =
     (let (customLabelKeys, h) = append_go rt customLabelKeys [key] h;
          (customLabelValues, h) = append_go rt customLabelValues [value] h
      in custom_loop rt rest (customLabelKeys, customLabelValues, h))"

text \<open>
  The first part of \<open>NewCollector\<close>, up to the comment \<open>Initialize all the metric
  descriptors\<close>: the five label slices and the slice of the custom values. The map
  \<open>customLabels\<close> is the list of its entries.
\<close>

definition build_labels ::
  "runtime \<Rightarrow> (string \<times> string) list \<Rightarrow> heap \<Rightarrow>
     (slice \<times> slice \<times> slice \<times> slice \<times> slice \<times> slice) \<times> heap" where
  "build_labels rt customLabels h =
     (let (metadataLabels, h) = slice_lit
            [''cluster'', ''task_arn'', ''family'', ''revision'', ''desired_status'',
             ''known_status'', ''pull_started_at'', ''pull_stopped_at'',
             ''availability_zone'', ''launch_type'', ''task_id''] h;
          (svcLabels, h) = slice_lit [''task_arn'', ''task_id''] h;
          (labels, h) = slice_lit [''container'', ''task_id''] h;
          (customLabelKeys, customLabelValues, h) =
            custom_loop rt (range_map rt [] customLabels) (nil_slice, nil_slice, h);
          (metadataLabels, h) = append_go rt metadataLabels (elems h customLabelKeys) h;
          (labels, h) = append_go rt labels (elems h customLabelKeys) h;
          (svcLabels, h) = append_go rt svcLabels (elems h customLabelKeys) h;
          (networkLabels, h) = append_go rt labels [''device''] h;
          (cpuLabels, h) = append_go rt labels [''cpu''] h
      in ((metadataLabels, svcLabels, labels, networkLabels, cpuLabels, customLabelValues), h))"

record collector =
  client :: Client
  customLabelValues :: slice

text \<open>
  \<open>NewCollector\<close>: the label slices, then the descriptors, each with the label names its
  slice holds when \<open>NewDesc\<close> is called (no array is written after the first call of
  \<open>NewDesc\<close>, so it makes no difference whether the descriptor keeps the slice or a copy).
  The result is the collector, the package-level variables and the heap.
\<close>

definition NewCollector ::
  "runtime \<Rightarrow> Client \<Rightarrow> (string \<times> string) list \<Rightarrow> heap \<Rightarrow> collector \<times> globals \<times> heap" where
  "NewCollector rt cl customLabels h0 =
     (case build_labels rt customLabels h0 of
        ((metadataLabels, svcLabels, labels, networkLabels, cpuLabels, customValues), h) \<Rightarrow>
          (\<lparr>client = cl, customLabelValues = customValues\<rparr>,
           \<lparr>metadataDesc = NewDesc ''ecs_metadata_info'' ''ECS service metadata.''
              (elems h metadataLabels),
            svcCpuLimitDesc = NewDesc ''ecs_svc_cpu_limit''
              ''Total CPU Limit. (1 unit = 1/1024th of a vCPU)'' (elems h svcLabels),
            svcMemLimitDesc = NewDesc ''ecs_svc_memory_limit_bytes''
              ''Total MEM Limit in bytes.'' (elems h svcLabels),
            cpuTotalDesc = NewDesc ''ecs_cpu_seconds_total''
              ''Total CPU usage in seconds.'' (elems h cpuLabels),
            cpuUtilizedDesc = NewDesc ''ecs_cpu_utilized''
              ''Total CPU usage. (1 unit = 1/1024th of a vCPU)'' (elems h labels),
            memoryUtilizedDesc = NewDesc ''ecs_memory_utilized_mega_bytes''
              ''Total memory utilized in MB.'' (elems h labels),
            memUsageDesc = NewDesc ''ecs_memory_bytes'' ''Memory usage in bytes.''
              (elems h labels),
            memLimitDesc = NewDesc ''ecs_memory_limit_bytes'' ''Memory limit in bytes.''
              (elems h labels),
            memCacheUsageDesc = NewDesc ''ecs_memory_cache_usage''
              ''Memory cache usage in bytes.'' (elems h labels),
            networkRxBytesDesc = NewDesc ''ecs_network_receive_bytes_total''
              ''Network recieved in bytes.'' (elems h networkLabels),
            networkRxPacketsDesc = NewDesc ''ecs_network_receive_packets_total''
              ''Network packets recieved.'' (elems h networkLabels),
            networkRxDroppedDesc = NewDesc ''ecs_network_receive_dropped_total''
              ''Network packets dropped in recieving.'' (elems h networkLabels),
            networkRxErrorsDesc = NewDesc ''ecs_network_receive_errors_total''
              ''Network errors in recieving.'' (elems h networkLabels),
            networkTxBytesDesc = NewDesc ''ecs_network_transmit_bytes_total''
              ''Network transmitted in bytes.'' (elems h networkLabels),
            networkTxPacketsDesc = NewDesc ''ecs_network_transmit_packets_total''
              ''Network packets transmitted.'' (elems h networkLabels),
            networkTxDroppedDesc = NewDesc ''ecs_network_transmit_dropped_total''
              ''Network packets dropped in transmit.'' (elems h networkLabels),
            networkTxErrorsDesc = NewDesc ''ecs_network_transmit_errors_total''
              ''Network errors in transmit.'' (elems h networkLabels)\<rparr>,
           h))"

subsection \<open>Collect\<close>

text \<open>
  The state of one call of \<open>Collect\<close>: the metrics sent on the channel so far, whether the
  call has panicked, and the heap. After a panic no statement is executed: \<open>send\<close> leaves
  the channel as it is (what the model does to the heap after a panic is not observable).
\<close>

record scrape =
  sent :: "Metric list"
  panicked :: bool
  heap :: heap

definition lit :: "string list \<Rightarrow> scrape \<Rightarrow> slice \<times> scrape" where
  "lit xs st = (case slice_lit xs (heap st) of (s, h) \<Rightarrow> (s, st\<lparr>heap := h\<rparr>))"

definition app :: "runtime \<Rightarrow> slice \<Rightarrow> string list \<Rightarrow> scrape \<Rightarrow> slice \<times> scrape" where
  "app rt s xs st = (case append_go rt s xs (heap st) of (s', h) \<Rightarrow> (s', st\<lparr>heap := h\<rparr>))"

definition rd :: "scrape \<Rightarrow> slice \<Rightarrow> string list" where
  "rd st s = elems (heap st) s"

text \<open>\<open>ch <- prometheus.MustNewConstMetric(d, vt, v, lvs...)\<close>\<close>

definition send :: "Desc \<Rightarrow> ValueType \<Rightarrow> float64 \<Rightarrow> string list \<Rightarrow> scrape \<Rightarrow> scrape" where
  "send d vt v lvs st =
     (if panicked st then st
      else case MustNewConstMetric d vt v lvs of
             Panics \<Rightarrow> st\<lparr>panicked := True\<rparr>
           | Returns m \<Rightarrow> st\<lparr>sent := sent st @ [m]\<rparr>)"

text \<open>
  The body of the loop over \<open>metadata.Containers\<close>, for the container at position \<open>i\<close>.
  The three range statements over maps are executed at the places \<open>[i, 0]\<close> (the literal
  of the memory gauges), \<open>[i, 1]\<close> (\<open>s.Networks\<close>) and \<open>[i, 2, j]\<close> (the literal of the
  network counters of the \<open>j\<close>-th interface visited).
\<close>

definition collect_container ::
  "runtime \<Rightarrow> globals \<Rightarrow> collector \<Rightarrow> TaskMetadata \<Rightarrow> (string \<Rightarrow> ContainerStats option) \<Rightarrow>
     nat \<times> Container \<Rightarrow> scrape \<Rightarrow> scrape" where
  "collect_container rt g c metadata stats = (\<lambda>(i, container) st.
     case stats (DockerID container) of
       None \<Rightarrow> st
     | Some s \<Rightarrow>
        (let (labelVals, st) = lit [Name container, TaskID metadata] st;
             (labelVals, st) = app rt labelVals (rd st (customLabelValues c)) st;
             cpu_delta = TotalUsage (CPUUsage (CPUStats s)) - TotalUsage (CPUUsage (PreCPUStats s));
             parsedReadTime = fst (time_Parse rt timeLayout (Read s));
             parsedPreReadTime = fst (time_Parse rt timeLayout (PreRead s));
             time_diff_since_last_read = Sub_Nanoseconds parsedReadTime parsedPreReadTime;
             cpu_usage_in_vcpu =
               fmul (fdiv (float64_of_uint64 cpu_delta) (float64_of_int64 time_diff_since_last_read))
                 cpuIn1Vcpu;
             st = send (cpuUtilizedDesc g) GaugeValue cpu_usage_in_vcpu (rd st labelVals) st;
             st = fold (\<lambda>(i, cpuUsage) st.
                     (let cpu = Sprintf_d i;
                          cpuUsageSeconds = fdiv (float64_of_uint64 cpuUsage) nanoSeconds;
                          (cpuLabelVals, st) = app rt labelVals [cpu] st
                      in send (cpuTotalDesc g) CounterValue cpuUsageSeconds (rd st cpuLabelVals) st))
                   (enumerate 0 (PercpuUsage (CPUUsage (CPUStats s)))) st;
             (cacheValue, st) =
               (case Stats (MemoryStats s) ''cache'' of
                  None \<Rightarrow> (Finite 0, st)
                | Some v \<Rightarrow>
                   (let cacheValue = float64_of_uint64 v;
                        memoryUtilizedInMegaBytes =
                          fdiv (fsub (float64_of_uint64 (Usage (MemoryStats s))) cacheValue) bytesInMiB
                    in (cacheValue,
                        send (memoryUtilizedDesc g) GaugeValue memoryUtilizedInMegaBytes
                          (rd st labelVals) st)));
             st = fold (\<lambda>(d, v) st. send d GaugeValue v (rd st labelVals) st)
                   (range_map rt [i, 0]
                     [(memUsageDesc g, float64_of_uint64 (Usage (MemoryStats s))),
                      (memLimitDesc g, float64_of_uint64 (Limit (MemoryStats s))),
                      (memCacheUsageDesc g, cacheValue)]) st
         in fold (\<lambda>(j, (iface, netStats)) st.
                 (let (networkLabelVals, st) = app rt labelVals [iface] st
                  in fold (\<lambda>(d, v) st. send d CounterValue v (rd st networkLabelVals) st)
                       (range_map rt [i, 2, j]
                         [(networkRxBytesDesc g, RxBytes netStats),
                          (networkRxPacketsDesc g, RxPackets netStats),
                          (networkRxDroppedDesc g, RxDropped netStats),
                          (networkRxErrorsDesc g, RxErrors netStats),
                          (networkTxBytesDesc g, TxBytes netStats),
                          (networkTxPacketsDesc g, TxPackets netStats),
                          (networkTxDroppedDesc g, TxDropped netStats),
                          (networkTxErrorsDesc g, TxErrors netStats)]) st))
              (enumerate 0 (range_map rt [i, 1] (Networks s))) st))"

text \<open>
  \<open>Collect\<close>. A failed fetch is logged and the call returns; a \<open>nil\<close> pointer from
  \<open>RetrieveTaskMetadata\<close> would panic at \<open>metadata.Cluster\<close>.
\<close>

definition collector_Collect :: "runtime \<Rightarrow> world \<Rightarrow> globals \<Rightarrow> collector \<Rightarrow> heap \<Rightarrow> scrape" where
  "collector_Collect rt w g c h =
     (let st = \<lparr>sent = [], panicked = False, heap = h\<rparr> in
      case RetrieveTaskMetadata w (client c) of
        Panics \<Rightarrow> st\<lparr>panicked := True\<rparr>
      | Returns (_, Some err) \<Rightarrow> st
      | Returns (None, None) \<Rightarrow> st\<lparr>panicked := True\<rparr>
      | Returns (Some metadata, None) \<Rightarrow>
         (let (metadataLableVals, st) = lit
                [Cluster metadata, TaskARN metadata, Family metadata, Revision metadata,
                 DesiredStatus metadata, KnownStatus metadata, PullStartedAt metadata,
                 PullStoppedAt metadata, AvailabilityZone metadata, LaunchType metadata,
                 TaskID metadata] st;
              (metadataLableVals, st) = app rt metadataLableVals (rd st (customLabelValues c)) st;
              st = send (metadataDesc g) GaugeValue (Finite 1) (rd st metadataLableVals) st;
              (svcLableVals, st) = lit [TaskARN metadata, TaskID metadata] st;
              (svcLableVals, st) = app rt svcLableVals (rd st (customLabelValues c)) st;
              st = send (svcCpuLimitDesc g) GaugeValue (fmul (CPU (Limits metadata)) (Finite 1024))
                     (rd st svcLableVals) st;
              st = send (svcMemLimitDesc g) GaugeValue (Memory (Limits metadata))
                     (rd st svcLableVals) st
          in case RetrieveTaskStats w (client c) of
               (stats, Some err) \<Rightarrow> st
             | (stats, None) \<Rightarrow>
                 fold (collect_container rt g c metadata stats)
                   (enumerate 0 (Containers metadata)) st))"

section \<open>Notions for the proofs\<close>

text \<open>
  A slice fits the heap when its length is within its capacity and, unless the capacity is
  zero (as for the nil slice), its pointer is the address of an array as long as its
  capacity. Two slices are separate when they cannot share an array.
\<close>

definition wf_slice :: "heap \<Rightarrow> slice \<Rightarrow> bool" where
  "wf_slice h s \<longleftrightarrow>
     len s \<le> cap s \<and> (cap s = 0 \<or> (ptr s < length h \<and> length (h ! ptr s) = cap s))"

definition separate :: "slice \<Rightarrow> slice \<Rightarrow> bool" where
  "separate s t \<longleftrightarrow> cap s = 0 \<or> cap t = 0 \<or> ptr s \<noteq> ptr t"

text \<open>
  A list of slices with their elements is tracked by a heap when each slice fits the heap
  and holds its elements there, and the slices are separate from each other.
\<close>

definition tracked :: "heap \<Rightarrow> (slice \<times> string list) list \<Rightarrow> bool" where
  "tracked h A \<longleftrightarrow>
     (\<forall>i < length A. wf_slice h (fst (A ! i)) \<and> elems h (fst (A ! i)) = snd (A ! i)) \<and>
     (\<forall>i < length A. \<forall>j < length A. i \<noteq> j \<longrightarrow> separate (fst (A ! i)) (fst (A ! j)))"

text \<open>
  What a call of \<open>Collect\<close> sends when no \<open>MustNewConstMetric\<close> panics, as lists:
  \<open>task_metrics\<close>, the three metrics of the task, and \<open>container_metrics\<close>, those of the
  body of the loop for the container at position \<open>i\<close> with the stats entry \<open>s\<close>, where
  \<open>vals\<close> are the custom values. That \<open>Collect\<close> sends them is proved below
  (\<open>collect_container_sent\<close>, \<open>Collect_sent\<close>).
\<close>

definition const_metric :: "Desc \<Rightarrow> ValueType \<Rightarrow> float64 \<Rightarrow> string list \<Rightarrow> Metric" where
  "const_metric d vt v lvs = \<lparr>desc = d, valType = vt, val = v, labelValues = lvs\<rparr>"

definition cpu_usage_in_vcpu :: "runtime \<Rightarrow> ContainerStats \<Rightarrow> float64" where
  "cpu_usage_in_vcpu rt s =
     fmul (fdiv (float64_of_uint64
                   (TotalUsage (CPUUsage (CPUStats s)) - TotalUsage (CPUUsage (PreCPUStats s))))
                (float64_of_int64
                   (Sub_Nanoseconds (fst (time_Parse rt timeLayout (Read s)))
                      (fst (time_Parse rt timeLayout (PreRead s))))))
       cpuIn1Vcpu"

definition cache_value :: "ContainerStats \<Rightarrow> float64" where
  "cache_value s =
     (case Stats (MemoryStats s) ''cache'' of None \<Rightarrow> Finite 0 | Some v \<Rightarrow> float64_of_uint64 v)"

definition memory_gauges :: "globals \<Rightarrow> ContainerStats \<Rightarrow> (Desc \<times> float64) list" where
  "memory_gauges g s =
     [(memUsageDesc g, float64_of_uint64 (Usage (MemoryStats s))),
      (memLimitDesc g, float64_of_uint64 (Limit (MemoryStats s))),
      (memCacheUsageDesc g, cache_value s)]"

definition network_counters :: "globals \<Rightarrow> NetworkStats \<Rightarrow> (Desc \<times> float64) list" where
  "network_counters g netStats =
     [(networkRxBytesDesc g, RxBytes netStats),
      (networkRxPacketsDesc g, RxPackets netStats),
      (networkRxDroppedDesc g, RxDropped netStats),
      (networkRxErrorsDesc g, RxErrors netStats),
      (networkTxBytesDesc g, TxBytes netStats),
      (networkTxPacketsDesc g, TxPackets netStats),
      (networkTxDroppedDesc g, TxDropped netStats),
      (networkTxErrorsDesc g, TxErrors netStats)]"

definition container_metrics ::
  "runtime \<Rightarrow> globals \<Rightarrow> string list \<Rightarrow> TaskMetadata \<Rightarrow> nat \<Rightarrow> Container \<Rightarrow> ContainerStats \<Rightarrow>
     Metric list" where
  "container_metrics rt g vals metadata i container s =
     (let labelVals = [Name container, TaskID metadata] @ vals in
      [const_metric (cpuUtilizedDesc g) GaugeValue (cpu_usage_in_vcpu rt s) labelVals] @
      map (\<lambda>(k, cpuUsage). const_metric (cpuTotalDesc g) CounterValue
             (fdiv (float64_of_uint64 cpuUsage) nanoSeconds) (labelVals @ [Sprintf_d k]))
        (enumerate 0 (PercpuUsage (CPUUsage (CPUStats s)))) @
      (case Stats (MemoryStats s) ''cache'' of
         None \<Rightarrow> []
       | Some v \<Rightarrow>
           [const_metric (memoryUtilizedDesc g) GaugeValue
              (fdiv (fsub (float64_of_uint64 (Usage (MemoryStats s))) (float64_of_uint64 v))
                 bytesInMiB)
              labelVals]) @
      map (\<lambda>(d, v). const_metric d GaugeValue v labelVals)
        (range_map rt [i, 0] (memory_gauges g s)) @
      concat (map (\<lambda>(j, (iface, netStats)).
                map (\<lambda>(d, v). const_metric d CounterValue v (labelVals @ [iface]))
                  (range_map rt [i, 2, j] (network_counters g netStats)))
              (enumerate 0 (range_map rt [i, 1] (Networks s)))))"

definition task_metrics :: "globals \<Rightarrow> string list \<Rightarrow> TaskMetadata \<Rightarrow> Metric list" where
  "task_metrics g vals metadata =
     [const_metric (metadataDesc g) GaugeValue (Finite 1)
        ([Cluster metadata, TaskARN metadata, Family metadata, Revision metadata,
          DesiredStatus metadata, KnownStatus metadata, PullStartedAt metadata,
          PullStoppedAt metadata, AvailabilityZone metadata, LaunchType metadata,
          TaskID metadata] @ vals),
      const_metric (svcCpuLimitDesc g) GaugeValue (fmul (CPU (Limits metadata)) (Finite 1024))
        ([TaskARN metadata, TaskID metadata] @ vals),
      const_metric (svcMemLimitDesc g) GaugeValue (Memory (Limits metadata))
        ([TaskARN metadata, TaskID metadata] @ vals)]"

text \<open>
  The descriptors fit \<open>n\<close> custom values when each has as many label names as \<open>Collect\<close>
  gives it label values.
\<close>

definition fits :: "globals \<Rightarrow> nat \<Rightarrow> bool" where
  "fits g n \<longleftrightarrow>
     length (variableLabels (metadataDesc g)) = 11 + n \<and>
     length (variableLabels (svcCpuLimitDesc g)) = 2 + n \<and>
     length (variableLabels (svcMemLimitDesc g)) = 2 + n \<and>
     length (variableLabels (cpuTotalDesc g)) = 3 + n \<and>
     length (variableLabels (cpuUtilizedDesc g)) = 2 + n \<and>
     length (variableLabels (memoryUtilizedDesc g)) = 2 + n \<and>
     length (variableLabels (memUsageDesc g)) = 2 + n \<and>
     length (variableLabels (memLimitDesc g)) = 2 + n \<and>
     length (variableLabels (memCacheUsageDesc g)) = 2 + n \<and>
     length (variableLabels (networkRxBytesDesc g)) = 3 + n \<and>
     length (variableLabels (networkRxPacketsDesc g)) = 3 + n \<and>
     length (variableLabels (networkRxDroppedDesc g)) = 3 + n \<and>
     length (variableLabels (networkRxErrorsDesc g)) = 3 + n \<and>
     length (variableLabels (networkTxBytesDesc g)) = 3 + n \<and>
     length (variableLabels (networkTxPacketsDesc g)) = 3 + n \<and>
     length (variableLabels (networkTxDroppedDesc g)) = 3 + n \<and>
     length (variableLabels (networkTxErrorsDesc g)) = 3 + n"

text \<open>The eleven label names of \<open>ecs_metadata_info\<close> before the custom ones.\<close>

definition fixed_metadata :: "string list" where
  "fixed_metadata = [''cluster'', ''task_arn'', ''family'', ''revision'', ''desired_status'',
     ''known_status'', ''pull_started_at'', ''pull_stopped_at'',
     ''availability_zone'', ''launch_type'', ''task_id'']"

section \<open>Example inputs\<close>

text \<open>A document that has only its task ARN set.\<close>

definition task_of_arn :: "string \<Rightarrow> TaskMetadata" where
  "task_of_arn arn = TaskMetadata_zero\<lparr>TaskARN := arn\<rparr>"

text \<open>
  A runtime. Its \<open>append\<close> doubles the capacity when that suffices, as the Go runtime does
  for the small slices of the program (a slice of length and capacity 2 that gets a third
  element has capacity 4 afterwards); its range statements visit the entries of a map
  from the last to the first; its \<open>time.Parse\<close> knows two timestamps, one second apart, and
  returns the zero time and an error for every other string.
\<close>

definition example_runtime :: runtime where
  "example_runtime =
     \<lparr>growcap = (\<lambda>c n. if 2 * c < n then n else 2 * c),
      rangeOrder = (\<lambda>place n. rev [0..<n]),
      time_Parse = (\<lambda>layout v.
         if v = ''2024-01-01T00:00:01Z'' then (63839664001000000000, None)
         else if v = ''2024-01-01T00:00:00Z'' then (63839664000000000000, None)
         else (0, Some ParseError))\<rparr>"

text \<open>
  A task of four containers: \<open>sidecar\<close> has no stats entry; \<open>web\<close> used one second of CPU
  in one second, has a \<open>cache\<close> entry and one network interface; the usage counter of
  \<open>worker\<close> went backwards; the timestamps of \<open>cron\<close> do not parse. The collector is built
  with one custom label.
\<close>

definition example_client :: Client where
  "example_client = \<lparr>endpoint = ''http://169.254.170.2/v4/x''\<rparr>"

definition example_container :: "string \<Rightarrow> string \<Rightarrow> Container" where
  "example_container did name =
     \<lparr>DockerID = did, Name = name, DockerName = [], ContainerImage = [], ImageID = [],
      Labels = (\<lambda>_. None), ContainerDesiredStatus = [], ContainerKnownStatus = [],
      CreatedAt = [], StartedAt = [], Type = [], ContainerARN = [], LogDriver = []\<rparr>"

definition example_stats ::
  "64 word \<Rightarrow> 64 word \<Rightarrow> string \<Rightarrow> string \<Rightarrow> (string \<Rightarrow> 64 word option) \<Rightarrow>
     (string \<times> NetworkStats) list \<Rightarrow> ContainerStats" where
  "example_stats cur prev r p mem nets =
     \<lparr>StatsName = [], StatsID = [], NumProcs = Finite 0, Read = r, PreRead = p,
      CPUStats = \<lparr>CPUUsage = \<lparr>TotalUsage = cur, PercpuUsage = [cur],
                   UsageInKernelmode = 0, UsageInUsermode = 0\<rparr>, SystemUsage = 0\<rparr>,
      PreCPUStats = \<lparr>CPUUsage = \<lparr>TotalUsage = prev, PercpuUsage = [prev],
                   UsageInKernelmode = 0, UsageInUsermode = 0\<rparr>, SystemUsage = 0\<rparr>,
      MemoryStats = \<lparr>Usage = 4194304, MaxUsage = 0, Stats = mem, Failcnt = 0, Limit = 8388608\<rparr>,
      Networks = nets\<rparr>"

definition example_metadata :: TaskMetadata where
  "example_metadata = TaskMetadata_zero
     \<lparr>Cluster := ''default'',
      TaskARN := ''arn:aws:ecs:us-west-2:111122223333:task/default/158d1c8083dd'',
      Limits := \<lparr>CPU = Finite 2, Memory = Finite 512\<rparr>,
      Containers := [example_container ''aaa'' ''sidecar'', example_container ''bbb'' ''web'',
                     example_container ''ccc'' ''worker'', example_container ''ddd'' ''cron'']\<rparr>"

definition example_stats_map :: "string \<Rightarrow> ContainerStats option" where
  "example_stats_map k =
     (if k = ''bbb'' then Some (example_stats 2000000000 1000000000
          ''2024-01-01T00:00:01Z'' ''2024-01-01T00:00:00Z''
          (\<lambda>k. if k = ''cache'' then Some 1048576 else None)
          [(''eth0'', \<lparr>RxBytes = Finite 1, RxPackets = Finite 2, RxErrors = Finite 3,
                       RxDropped = Finite 4, TxBytes = Finite 5, TxPackets = Finite 6,
                       TxErrors = Finite 7, TxDropped = Finite 8\<rparr>)])
      else if k = ''ccc'' then Some (example_stats 1000000000 2000000000
          ''2024-01-01T00:00:01Z'' ''2024-01-01T00:00:00Z'' (\<lambda>_. None) [])
      else if k = ''ddd'' then Some (example_stats 7 5 ''yesterday'' [] (\<lambda>_. None) [])
      else None)"

definition example_world :: world where
  "example_world =
     \<lparr>get_task = (\<lambda>uri. if uri = ''http://169.254.170.2/v4/x/task''
                         then Unmarshals example_metadata None else Fails DoError),
      get_stats = (\<lambda>uri. if uri = ''http://169.254.170.2/v4/x/task/stats''
                          then Unmarshals example_stats_map None else Fails DoError)\<rparr>"

definition example_collector :: "collector \<times> globals \<times> heap" where
  "example_collector = NewCollector example_runtime example_client [(''env'', ''prod'')] []"

section \<open>Properties of the metadata client\<close>

lemma strings_Split_nonempty: "strings_Split s sep \<noteq> []"
  by (subst strings_Split.simps) (simp split: list.split)

lemma strings_Split_no_sep:
  assumes "sep \<notin> set s"
  shows "strings_Split s sep = [s]"
proof -
  have "dropWhile (\<lambda>c. c \<noteq> sep) s = []"
    using assms by (induction s) auto
  then show ?thesis by (subst strings_Split.simps) (simp only: list.case)
qed

lemma takeWhile_rev_no_sep:
  assumes "sep \<notin> set s"
  shows "takeWhile (\<lambda>c. c \<noteq> sep) (rev s) = rev s"
proof -
  have "\<forall>x \<in> set (rev s). x \<noteq> sep" using assms by auto
  then show ?thesis by (simp only: takeWhile_eq_all_conv)
qed

text \<open>The last part of a split is what stands behind the last separator.\<close>

lemma last_strings_Split:
  "last (strings_Split s sep) = rev (takeWhile (\<lambda>c. c \<noteq> sep) (rev s))"
proof (induction s sep rule: strings_Split.induct)
  case (1 s sep)
  show ?case
  proof (cases "dropWhile (\<lambda>c. c \<noteq> sep) s")
    case Nil
    then have n: "sep \<notin> set s" by (induction s) (auto split: if_splits)
    show ?thesis
      by (simp add: strings_Split_no_sep [OF n] takeWhile_rev_no_sep [OF n])
  next
    case (Cons c rest)
    then have c: "c = sep" using hd_dropWhile [of "\<lambda>c. c \<noteq> sep" s] by force
    have s: "s = takeWhile (\<lambda>c. c \<noteq> sep) s @ sep # rest"
      using takeWhile_dropWhile_id [of "\<lambda>c. c \<noteq> sep" s] Cons c by simp
    have "last (strings_Split s sep) = last (strings_Split rest sep)"
      by (subst strings_Split.simps) (simp add: Cons strings_Split_nonempty)
    also have "\<dots> = rev (takeWhile (\<lambda>c. c \<noteq> sep) (rev rest))"
      using "1.IH" Cons by simp
    also have "\<dots> = rev (takeWhile (\<lambda>c. c \<noteq> sep) (rev s))"
    proof -
      have "rev s = rev rest @ sep # rev (takeWhile (\<lambda>c. c \<noteq> sep) s)"
        using arg_cong [OF s, of rev] by simp
      then show ?thesis by (simp add: takeWhile_append)
    qed
    finally show ?thesis .
  qed
qed

lemma SetTaskID_Returns:
  "SetTaskID t = Returns (t\<lparr>TaskID := rev (takeWhile (\<lambda>c. c \<noteq> CHR ''/'') (rev (TaskARN t)))\<rparr>)"
  using last_strings_Split [of "TaskARN t" "CHR ''/''"]
  by (simp add: SetTaskID_def Let_def strings_Split_nonempty last_conv_nth)

text \<open>
  Claim C7. When the task ARN is \<open>pre/suf\<close> with no \<open>/\<close> in \<open>suf\<close> (so \<open>suf\<close> is what
  stands behind the last \<open>/\<close>), \<open>SetTaskID\<close> sets the task ID to \<open>suf\<close>; when the ARN has no
  \<open>/\<close>, it sets the task ID to the whole ARN. No other field changes and there is no panic.
\<close>

theorem SetTaskID_last_segment:
  "(TaskARN t = pre @ CHR ''/'' # suf \<and> CHR ''/'' \<notin> set suf \<longrightarrow>
      SetTaskID t = Returns (t\<lparr>TaskID := suf\<rparr>)) \<and>
   (CHR ''/'' \<notin> set (TaskARN t) \<longrightarrow> SetTaskID t = Returns (t\<lparr>TaskID := TaskARN t\<rparr>))"
proof (intro conjI impI)
  assume a: "TaskARN t = pre @ CHR ''/'' # suf \<and> CHR ''/'' \<notin> set suf"
  then have "takeWhile (\<lambda>c. c \<noteq> CHR ''/'') (rev suf) = rev suf"
    by (simp add: takeWhile_rev_no_sep)
  then have "takeWhile (\<lambda>c. c \<noteq> CHR ''/'') (rev (TaskARN t)) = rev suf"
    using a by (simp add: takeWhile_append)
  then show "SetTaskID t = Returns (t\<lparr>TaskID := suf\<rparr>)"
    by (simp add: SetTaskID_Returns)
next
  assume "CHR ''/'' \<notin> set (TaskARN t)"
  then show "SetTaskID t = Returns (t\<lparr>TaskID := TaskARN t\<rparr>)"
    by (simp add: SetTaskID_Returns takeWhile_rev_no_sep)
qed

theorem SetTaskID_last_segment_witness:
  "SetTaskID (task_of_arn ''arn:aws:ecs:us-west-2:111122223333:task/default/158d1c8083dd'') =
     Returns ((task_of_arn ''arn:aws:ecs:us-west-2:111122223333:task/default/158d1c8083dd'')
       \<lparr>TaskID := ''158d1c8083dd''\<rparr>) \<and>
   SetTaskID (task_of_arn ''158d1c8083dd'') =
     Returns ((task_of_arn ''158d1c8083dd'')\<lparr>TaskID := ''158d1c8083dd''\<rparr>)"
  using SetTaskID_last_segment [of "task_of_arn ''arn:aws:ecs:us-west-2:111122223333:task/default/158d1c8083dd''"
      "''arn:aws:ecs:us-west-2:111122223333:task/default''" "''158d1c8083dd''"]
    SetTaskID_last_segment [of "task_of_arn ''158d1c8083dd''" "[]" "[]"]
  by (simp add: task_of_arn_def)

text \<open>
  Claim C8, as stated, fails: the ARN \<open>task/\<close> is not empty and its task ID is empty.
\<close>

theorem SetTaskID_empty_counterexample:
  "TaskARN (task_of_arn ''task/'') \<noteq> [] \<and>
   SetTaskID (task_of_arn ''task/'') = Returns ((task_of_arn ''task/'')\<lparr>TaskID := []\<rparr>)"
  by (simp add: task_of_arn_def SetTaskID_Returns)

text \<open>
  Claim C8, amended. \<open>SetTaskID\<close> always returns (the task ID is always derivable), and
  the task ID it sets is empty exactly when the ARN is empty or ends in \<open>/\<close>: it is not
  empty for every ARN that is not empty and does not end in \<open>/\<close>.
\<close>

theorem SetTaskID_nonempty:
  "\<exists>t'. SetTaskID t = Returns t' \<and>
     (TaskID t' = [] \<longleftrightarrow> TaskARN t = [] \<or> last (TaskARN t) = CHR ''/'')"
proof -
  have "takeWhile (\<lambda>c. c \<noteq> CHR ''/'') (rev (TaskARN t)) = [] \<longleftrightarrow>
        TaskARN t = [] \<or> last (TaskARN t) = CHR ''/''"
    by (cases "TaskARN t" rule: rev_cases) (auto simp: takeWhile_eq_Nil_iff)
  then show ?thesis by (simp add: SetTaskID_Returns)
qed

theorem SetTaskID_nonempty_witness:
  "\<exists>t'. SetTaskID (task_of_arn ''task/abc'') = Returns t' \<and> TaskID t' \<noteq> []"
  using SetTaskID_nonempty [of "task_of_arn ''task/abc''"]
  by (auto simp: task_of_arn_def)

text \<open>
  Claim C10. Whatever the request does (it may fail before the decoding, or the decoding
  may fail and leave a partly filled document), \<open>RetrieveTaskMetadata\<close> returns a pointer
  that is not nil, to the document the request left with \<open>SetTaskID\<close> applied to it,
  together with the error of the request.
\<close>

theorem RetrieveTaskMetadata_always_document:
  "\<exists>out err md. request (get_task w (endpoint c @ ''/task'')) TaskMetadata_zero = (out, err) \<and>
      SetTaskID out = Returns md \<and>
      RetrieveTaskMetadata w c = Returns (Some md, err)"
  by (cases "request (get_task w (endpoint c @ ''/task'')) TaskMetadata_zero")
     (simp add: RetrieveTaskMetadata_def SetTaskID_Returns)


section \<open>Slices and the heap\<close>

lemma wf_slice_nil [simp]: "wf_slice h nil_slice"
  by (simp add: wf_slice_def nil_slice_def)

lemma elems_nil [simp]: "elems h nil_slice = []"
  by (simp add: elems_def nil_slice_def)

lemma separate_nil [simp]: "separate nil_slice t" "separate t nil_slice"
  by (simp_all add: separate_def nil_slice_def)

lemma separate_sym: "separate s t \<Longrightarrow> separate t s"
  by (auto simp: separate_def)

lemma length_elems: "wf_slice h s \<Longrightarrow> length (elems h s) = len s"
  by (auto simp: wf_slice_def elems_def)

lemma slice_lit_new:
  assumes "slice_lit xs h = (s, h')"
  shows "elems h' s = xs" "wf_slice h' s" "len s = length xs"
  using assms by (auto simp: slice_lit_def elems_def wf_slice_def)

lemma slice_lit_frame:
  assumes "slice_lit xs h = (s, h')" "wf_slice h t"
  shows "wf_slice h' t" "elems h' t = elems h t" "separate t s"
  using assms by (auto simp: slice_lit_def elems_def wf_slice_def separate_def nth_append)

lemma append_go_new:
  assumes "append_go rt s xs h = (s', h')" "wf_slice h s"
  shows "elems h' s' = elems h s @ xs" "wf_slice h' s'" "len s' = len s + length xs"
  using assms
  by (auto simp: append_go_def Let_def elems_def wf_slice_def split: if_splits)

lemma append_go_frame:
  assumes "append_go rt s xs h = (s', h')" "wf_slice h s" "wf_slice h t" "separate t s"
  shows "wf_slice h' t" "elems h' t = elems h t" "separate t s'"
  using assms
  by (auto simp: append_go_def Let_def elems_def wf_slice_def separate_def nth_append
      nth_list_update split: if_splits)

text \<open>The slice appended to keeps its elements, whether or not the result shares its array.\<close>

lemma append_go_self:
  assumes "append_go rt s xs h = (s', h')" "wf_slice h s"
  shows "wf_slice h' s" "elems h' s = elems h s"
  using assms
  by (auto simp: append_go_def Let_def elems_def wf_slice_def nth_append split: if_splits)

text \<open>A slice that shares the array keeps its length and its first \<open>len s\<close> elements.\<close>

lemma append_go_alias:
  assumes a: "append_go rt s xs h = (s', h')" and s: "wf_slice h s" and t: "wf_slice h t"
  shows "wf_slice h' t" "take (len s) (elems h' t) = take (len s) (elems h t)"
proof -
  let ?n = "len s + length xs"
  let ?a = "take (len s) (h ! ptr s) @ xs @ drop ?n (h ! ptr s)"
  have "wf_slice h' t \<and> take (len s) (elems h' t) = take (len s) (elems h t)"
  proof (cases "?n \<le> cap s")
    case False
    then have "h' = h @ [take (len s) (h ! ptr s) @ xs @
        replicate (max ?n (growcap rt (cap s) ?n) - ?n) []]"
      using a by (simp add: append_go_def Let_def)
    then show ?thesis
      using t by (auto simp: elems_def wf_slice_def nth_append)
  next
    case True
    then have h': "h' = h[ptr s := ?a]"
      using a by (simp add: append_go_def Let_def)
    show ?thesis
    proof (cases "ptr t = ptr s \<and> ptr s < length h")
      case False
      have "length h' = length h" using h' by simp
      moreover have "h' ! ptr t = h ! ptr t"
      proof (cases "ptr s < length h")
        case True
        with False have "ptr t \<noteq> ptr s" by simp
        then show ?thesis using h' by simp
      next
        case False
        then show ?thesis using h' by (simp add: list_update_beyond)
      qed
      ultimately have "h' ! ptr t = h ! ptr t" "length h' = length h" by simp_all
      then show ?thesis using t by (simp add: elems_def wf_slice_def)
    next
      case same: True
      show ?thesis
      proof (cases "cap s = 0")
        case True
        then have "xs = []" "len s = 0" using \<open>?n \<le> cap s\<close> by auto
        then have "h' = h" using h' by simp
        then show ?thesis by (simp add: t)
      next
        case False
        then have l: "length (h ! ptr s) = cap s" "len s \<le> cap s"
          using s by (auto simp: wf_slice_def)
        have n: "h' ! ptr t = ?a" "length h' = length h" using h' same by auto
        have la: "length ?a = cap s" using l True by simp
        have tk: "take (len s) (take (len t) ?a) = take (len s) (take (len t) (h ! ptr s))"
          using l by (simp add: min_def)
        have "wf_slice h' t"
          using t same n(2) la l(1) unfolding wf_slice_def n(1) [symmetric] by auto
        moreover have "take (len s) (elems h' t) = take (len s) (elems h t)"
          unfolding elems_def n(1) using tk same by simp
        ultimately show ?thesis by simp
      qed
    qed
  qed
  then show "wf_slice h' t" "take (len s) (elems h' t) = take (len s) (elems h t)"
    by simp_all
qed


subsection \<open>Tracked slices\<close>

lemma tracked_Nil [simp]: "tracked h []"
  by (simp add: tracked_def)

lemma tracked_get:
  assumes "tracked h A" "i < length A" "A ! i = (s, xs)"
  shows "wf_slice h s" "elems h s = xs"
  using assms by (auto simp: tracked_def)

lemma tracked_separate:
  assumes "tracked h A" "i < length A" "j < length A" "i \<noteq> j"
  shows "separate (fst (A ! i)) (fst (A ! j))"
  using assms by (auto simp: tracked_def)

lemma tracked_Cons:
  assumes "tracked h A" "wf_slice h s" "elems h s = xs" "\<forall>a \<in> set A. separate (fst a) s"
  shows "tracked h ((s, xs) # A)"
proof -
  let ?B = "(s, xs) # A"
  have 1: "wf_slice h (fst (?B ! i)) \<and> elems h (fst (?B ! i)) = snd (?B ! i)"
    if "i < length ?B" for i
    using that assms(1-3) by (cases i) (auto simp: tracked_def)
  have 2: "separate (fst (?B ! i)) (fst (?B ! j))"
    if ij: "i < length ?B" "j < length ?B" "i \<noteq> j" for i j
  proof (cases i)
    case 0
    then obtain j' where j: "j = Suc j'" "j' < length A" using ij by (cases j) auto
    then have "separate (fst (A ! j')) s" using assms(4) by simp
    then show ?thesis using 0 j by (simp add: separate_sym)
  next
    case (Suc i')
    show ?thesis
    proof (cases j)
      case 0
      have "separate (fst (A ! i')) s" using assms(4) Suc ij by simp
      then show ?thesis using 0 Suc by simp
    next
      case (Suc j')
      then show ?thesis
        using \<open>i = Suc i'\<close> ij assms(1) by (simp add: tracked_def)
    qed
  qed
  show ?thesis unfolding tracked_def using 1 2 by blast
qed

lemma tracked_nil: "tracked h A \<Longrightarrow> tracked h ((nil_slice, []) # A)"
  by (rule tracked_Cons) simp_all

lemma tracked_lit:
  assumes "tracked h A" "slice_lit xs h = (s, h')"
  shows "tracked h' ((s, xs) # A)"
proof -
  have "tracked h' A"
    using assms slice_lit_frame [OF assms(2)] by (simp add: tracked_def)
  moreover have "\<forall>a \<in> set A. separate (fst a) s"
  proof
    fix a assume "a \<in> set A"
    then obtain i where "i < length A" "A ! i = a" by (auto simp: in_set_conv_nth)
    then have "wf_slice h (fst a)" using assms(1) by (auto simp: tracked_def)
    then show "separate (fst a) s" by (rule slice_lit_frame(3) [OF assms(2)])
  qed
  ultimately show ?thesis
    using slice_lit_new [OF assms(2)] by (intro tracked_Cons) simp_all
qed

text \<open>An \<open>append\<close> whose result replaces the slice appended to.\<close>

lemma tracked_app:
  assumes t: "tracked h A" and i: "i < length A" "A ! i = (s, xs)"
    and a: "append_go rt s ys h = (s', h')"
  shows "tracked h' (A[i := (s', xs @ ys)])"
proof -
  have s: "wf_slice h s" "elems h s = xs" using tracked_get [OF t i] by simp_all
  have other: "wf_slice h' (fst (A ! j)) \<and> elems h' (fst (A ! j)) = snd (A ! j) \<and>
      separate (fst (A ! j)) s'" if "j < length A" "j \<noteq> i" for j
  proof -
    have "wf_slice h (fst (A ! j))" "elems h (fst (A ! j)) = snd (A ! j)"
      using t that by (simp_all add: tracked_def)
    moreover have "separate (fst (A ! j)) s"
      using tracked_separate [OF t that(1) i(1) that(2)] i(2) by simp
    ultimately show ?thesis
      using append_go_frame [OF a s(1)] by simp
  qed
  let ?B = "A[i := (s', xs @ ys)]"
  have 1: "wf_slice h' (fst (?B ! j)) \<and> elems h' (fst (?B ! j)) = snd (?B ! j)"
    if "j < length ?B" for j
    using that other [of j] append_go_new [OF a s(1)] s(2) i(1)
    by (cases "j = i") simp_all
  have 2: "separate (fst (?B ! j)) (fst (?B ! k))"
    if jk: "j < length ?B" "k < length ?B" "j \<noteq> k" for j k
  proof (cases "j = i")
    case True
    then show ?thesis using jk other [of k] i(1) by (simp add: separate_sym)
  next
    case False
    then show ?thesis
      using jk other [of j] i(1) tracked_separate [OF t, of j k]
      by (cases "k = i") simp_all
  qed
  show ?thesis unfolding tracked_def using 1 2 by blast
qed

text \<open>An \<open>append\<close> whose result is used beside the slice appended to.\<close>

lemma tracked_temp:
  assumes t: "tracked h A" and i: "i < length A" "A ! i = (s, xs)"
    and a: "append_go rt s ys h = (s', h')"
  shows "tracked h' A" "elems h' s' = xs @ ys" "wf_slice h' s'"
proof -
  have s: "wf_slice h s" "elems h s = xs" using tracked_get [OF t i] by simp_all
  show "elems h' s' = xs @ ys" "wf_slice h' s'"
    using append_go_new [OF a s(1)] s(2) by simp_all
  have "wf_slice h' (fst (A ! j)) \<and> elems h' (fst (A ! j)) = snd (A ! j)"
    if "j < length A" for j
  proof (cases "j = i")
    case True
    then show ?thesis using append_go_self [OF a s(1)] s(2) i(2) by simp
  next
    case False
    have "wf_slice h (fst (A ! j))" "elems h (fst (A ! j)) = snd (A ! j)"
      using t that by (simp_all add: tracked_def)
    moreover have "separate (fst (A ! j)) s"
      using tracked_separate [OF t that i(1) False] i(2) by simp
    ultimately show ?thesis
      using append_go_frame [OF a s(1)] by simp
  qed
  then show "tracked h' A"
    using t by (simp add: tracked_def)
qed

subsection \<open>Range statements\<close>

lemma mset_range_map: "mset (range_map rt place es) = mset es"
proof (cases "sort (rangeOrder rt place (length es)) = [0..<length es]")
  case True
  then have "mset (rangeOrder rt place (length es)) = mset [0..<length es]"
    by (metis mset_sort)
  then have "mset (map (\<lambda>i. es ! i) (rangeOrder rt place (length es))) =
      mset (map (\<lambda>i. es ! i) [0..<length es])"
    by (metis mset_map)
  then show ?thesis using True by (simp add: range_map_def Let_def map_nth)
next
  case False
  then show ?thesis by (simp add: range_map_def Let_def)
qed

lemma set_range_map: "set (range_map rt place es) = set es"
  by (metis mset_range_map set_mset_mset)

lemma length_range_map: "length (range_map rt place es) = length es"
  by (metis mset_range_map size_mset)

subsection \<open>NewCollector\<close>

lemma custom_loop_tracked:
  assumes "custom_loop rt kvs (ks, vs, h) = (ks', vs', h')"
    and "tracked h ((ks, xs) # (vs, ys) # A)"
  shows "tracked h' ((ks', xs @ map fst kvs) # (vs', ys @ map snd kvs) # A)"
  using assms
proof (induction kvs arbitrary: ks vs h xs ys)
  case Nil
  then show ?case by simp
next
  case (Cons kv kvs)
  obtain key val where kv: "kv = (key, val)" by (cases kv)
  obtain ks1 h1 where 1: "append_go rt ks [key] h = (ks1, h1)" by force
  obtain vs1 h2 where 2: "append_go rt vs [val] h1 = (vs1, h2)" by force
  have t1: "tracked h1 ((ks1, xs @ [key]) # (vs, ys) # A)"
    using tracked_app [OF Cons.prems(2) _ _ 1, of 0 xs] by simp
  have t2: "tracked h2 ((ks1, xs @ [key]) # (vs1, ys @ [val]) # A)"
    using tracked_app [OF t1 _ _ 2, of 1 ys] by simp
  have "custom_loop rt kvs (ks1, vs1, h2) = (ks', vs', h')"
    using Cons.prems(1) kv 1 2 by simp
  from Cons.IH [OF this t2] show ?case using kv by simp
qed

text \<open>
  The label names \<open>NewCollector\<close> builds. The two appends to \<open>labels\<close> share an array
  exactly when the slice has spare capacity: then the last name of \<open>networkLabels\<close> is
  overwritten.
\<close>

lemma build_labels_elems:
  assumes b: "build_labels rt customLabels h0 = ((mL, sL, L, nL, cL, cv), h)"
  defines "ks \<equiv> map fst (range_map rt [] customLabels)"
    and "vs \<equiv> map snd (range_map rt [] customLabels)"
  shows "elems h mL = fixed_metadata @ ks"
    and "elems h sL = [''task_arn'', ''task_id''] @ ks"
    and "elems h L = [''container'', ''task_id''] @ ks"
    and "elems h cL = [''container'', ''task_id''] @ ks @ [''cpu'']"
    and "elems h nL = [''container'', ''task_id''] @ ks @
      [if customLabels \<noteq> [] \<and>
          length customLabels + 2 < growcap rt 2 (length customLabels + 2)
       then ''cpu'' else ''device'']"
    and "elems h cv = vs"
    and "wf_slice h cv"
proof -
  obtain mL0 h1 where 1: "slice_lit fixed_metadata h0 = (mL0, h1)" by force
  obtain sL0 h2 where 2: "slice_lit [''task_arn'', ''task_id''] h1 = (sL0, h2)" by force
  obtain L0 h3 where 3: "slice_lit [''container'', ''task_id''] h2 = (L0, h3)" by force
  obtain ck cv' h4 where 4:
    "custom_loop rt (range_map rt [] customLabels) (nil_slice, nil_slice, h3) = (ck, cv', h4)"
    by (metis prod_cases3)
  have t3: "tracked h3 [(nil_slice, []), (nil_slice, []), (L0, [''container'', ''task_id'']),
       (sL0, [''task_arn'', ''task_id'']), (mL0, fixed_metadata)]"
    by (intro tracked_nil tracked_lit [OF _ 3] tracked_lit [OF _ 2] tracked_lit [OF _ 1]) simp
  have t4: "tracked h4 [(ck, ks), (cv', vs), (L0, [''container'', ''task_id'']),
       (sL0, [''task_arn'', ''task_id'']), (mL0, fixed_metadata)]"
    using custom_loop_tracked [OF 4 t3] by (simp add: ks_def vs_def)
  obtain mL1 h5 where 5: "append_go rt mL0 (elems h4 ck) h4 = (mL1, h5)" by force
  have e4: "elems h4 ck = ks" using tracked_get(2) [OF t4, of 0] by simp
  have t5: "tracked h5 [(ck, ks), (cv', vs), (L0, [''container'', ''task_id'']),
       (sL0, [''task_arn'', ''task_id'']), (mL1, fixed_metadata @ ks)]"
    using tracked_app [OF t4 _ _ 5, of 4] e4 by simp
  obtain L1 h6 where 6: "append_go rt L0 (elems h5 ck) h5 = (L1, h6)" by force
  have e5: "elems h5 ck = ks" using tracked_get(2) [OF t5, of 0] by simp
  have t6: "tracked h6 [(ck, ks), (cv', vs), (L1, [''container'', ''task_id''] @ ks),
       (sL0, [''task_arn'', ''task_id'']), (mL1, fixed_metadata @ ks)]"
    using tracked_app [OF t5 _ _ 6, of 2] e5 by simp
  obtain sL1 h7 where 7: "append_go rt sL0 (elems h6 ck) h6 = (sL1, h7)" by force
  have e6: "elems h6 ck = ks" using tracked_get(2) [OF t6, of 0] by simp
  let ?A = "[(ck, ks), (cv', vs), (L1, [''container'', ''task_id''] @ ks),
       (sL1, [''task_arn'', ''task_id''] @ ks), (mL1, fixed_metadata @ ks)]"
  have t7: "tracked h7 ?A"
    using tracked_app [OF t6 _ _ 7, of 3] e6 by simp
  obtain nL1 h8 where 8: "append_go rt L1 [''device''] h7 = (nL1, h8)" by force
  have t8: "tracked h8 ?A" and n8: "elems h8 nL1 = ([''container'', ''task_id''] @ ks) @ [''device'']"
    "wf_slice h8 nL1"
    using tracked_temp [OF t7 _ _ 8, of 2] by simp_all
  obtain cL1 h9 where 9: "append_go rt L1 [''cpu''] h8 = (cL1, h9)" by force
  have t9: "tracked h9 ?A" and c9: "elems h9 cL1 = ([''container'', ''task_id''] @ ks) @ [''cpu'']"
    using tracked_temp [OF t8 _ _ 9, of 2] by simp_all
  have L7: "wf_slice h7 L1" "elems h7 L1 = [''container'', ''task_id''] @ ks"
    using tracked_get [OF t7, of 2] by simp_all
  have L8: "wf_slice h8 L1" "elems h8 L1 = [''container'', ''task_id''] @ ks"
    using tracked_get [OF t8, of 2] by simp_all
  have L0: "L0 = \<lparr>ptr = length h2, len = 2, cap = 2\<rparr>"
    using 3 by (auto simp: slice_lit_def)
  have lks: "length ks = length customLabels"
    by (simp add: ks_def length_range_map)
  let ?n = "length customLabels + 2"
  let ?spare = "customLabels \<noteq> [] \<and> ?n < growcap rt 2 ?n"
  have lenL: "len L1 = ?n"
    using append_go_new(3) [OF 6] tracked_get(1) [OF t5, of 2] L0 e5 lks by simp
  have n9': "elems h9 nL1 = ([''container'', ''task_id''] @ ks) @
      [if ?spare then ''cpu'' else ''device'']"
  proof (cases ?spare)
    case True
    then have "\<not> len L0 + length (elems h5 ck) \<le> cap L0"
      using L0 e5 lks by simp
    then have "cap L1 = max ?n (growcap rt 2 ?n)"
      using 6 L0 e5 lks by (auto simp: append_go_def Let_def)
    then have c: "len L1 + 1 \<le> cap L1" using True lenL by simp
    have "nL1 = L1\<lparr>len := len L1 + 1\<rparr>" using 8 c by (auto simp: append_go_def Let_def)
    moreover have "cL1 = L1\<lparr>len := len L1 + 1\<rparr>" using 9 c by (auto simp: append_go_def Let_def)
    ultimately show ?thesis using c9 True by simp
  next
    case False
    have c: "cap L1 = len L1"
    proof (cases "customLabels = []")
      case True
      then have "ks = []" using lks by simp
      then have "L1 = L0\<lparr>len := 2\<rparr>" using 6 L0 e5 by (auto simp: append_go_def Let_def)
      then show ?thesis using L0 by simp
    next
      case ne: False
      then have "\<not> len L0 + length (elems h5 ck) \<le> cap L0"
        using L0 e5 lks by simp
      then have "cap L1 = max ?n (growcap rt 2 ?n)"
        using 6 L0 e5 lks by (auto simp: append_go_def Let_def)
      then show ?thesis using False ne lenL by simp
    qed
    then have "ptr nL1 = length h7" using 8 by (auto simp: append_go_def Let_def)
    moreover have "ptr L1 < length h7" using L7(1) c lenL by (auto simp: wf_slice_def)
    ultimately have "separate nL1 L1" by (simp add: separate_def)
    then have "elems h9 nL1 = elems h8 nL1"
      using append_go_frame(2) [OF 9 L8(1) n8(2)] by simp
    then show ?thesis using n8(1) False by simp
  qed
  have res: "build_labels rt customLabels h0 = ((mL1, sL1, L1, nL1, cL1, cv'), h9)"
    using 1 2 3 4 5 6 7 8 9 by (simp add: build_labels_def fixed_metadata_def)
  then have eq: "mL = mL1" "sL = sL1" "L = L1" "nL = nL1" "cL = cL1" "cv = cv'" "h = h9"
    using b by simp_all
  show "elems h mL = fixed_metadata @ ks" using tracked_get(2) [OF t9, of 4] eq by simp
  show "elems h sL = [''task_arn'', ''task_id''] @ ks" using tracked_get(2) [OF t9, of 3] eq by simp
  show "elems h L = [''container'', ''task_id''] @ ks" using tracked_get(2) [OF t9, of 2] eq by simp
  show "elems h cL = [''container'', ''task_id''] @ ks @ [''cpu'']" using c9 eq by simp
  show "elems h nL = [''container'', ''task_id''] @ ks @
      [if customLabels \<noteq> [] \<and>
          length customLabels + 2 < growcap rt 2 (length customLabels + 2)
       then ''cpu'' else ''device'']"
    using n9' eq by simp
  show "elems h cv = vs" using tracked_get(2) [OF t9, of 1] eq by simp
  show "wf_slice h cv" using tracked_get(1) [OF t9, of 1] eq by simp
qed

section \<open>Properties of Collect\<close>

subsection \<open>Steps of Collect\<close>

lemma lit_tracked:
  assumes "lit xs st = (s, st')" "tracked (heap st) A"
  shows "tracked (heap st') ((s, xs) # A)" "sent st' = sent st" "panicked st' = panicked st"
proof -
  obtain h' where h: "slice_lit xs (heap st) = (s, h')" "st' = st\<lparr>heap := h'\<rparr>"
    using assms(1) by (auto simp: lit_def split: prod.splits)
  show "tracked (heap st') ((s, xs) # A)" using tracked_lit [OF assms(2) h(1)] h(2) by simp
  show "sent st' = sent st" "panicked st' = panicked st" using h(2) by simp_all
qed

lemma app_tracked:
  assumes "app rt s ys st = (s', st')" "tracked (heap st) A" "i < length A" "A ! i = (s, xs)"
  shows "tracked (heap st') (A[i := (s', xs @ ys)])" "sent st' = sent st"
    "panicked st' = panicked st"
proof -
  obtain h' where h: "append_go rt s ys (heap st) = (s', h')" "st' = st\<lparr>heap := h'\<rparr>"
    using assms(1) by (auto simp: app_def split: prod.splits)
  show "tracked (heap st') (A[i := (s', xs @ ys)])"
    using tracked_app [OF assms(2-4) h(1)] h(2) by simp
  show "sent st' = sent st" "panicked st' = panicked st" using h(2) by simp_all
qed

lemma app_temp:
  assumes "app rt s ys st = (s', st')" "tracked (heap st) A" "i < length A" "A ! i = (s, xs)"
  shows "tracked (heap st') A" "rd st' s' = xs @ ys" "sent st' = sent st"
    "panicked st' = panicked st"
proof -
  obtain h' where h: "append_go rt s ys (heap st) = (s', h')" "st' = st\<lparr>heap := h'\<rparr>"
    using assms(1) by (auto simp: app_def split: prod.splits)
  show "tracked (heap st') A" "rd st' s' = xs @ ys"
    using tracked_temp [OF assms(2-4) h(1)] h(2) by (simp_all add: rd_def)
  show "sent st' = sent st" "panicked st' = panicked st" using h(2) by simp_all
qed

lemma send_ok:
  assumes "\<not> panicked st" "length lvs = length (variableLabels d)"
  shows "send d vt v lvs st = st\<lparr>sent := sent st @ [const_metric d vt v lvs]\<rparr>"
  using assms by (simp add: send_def MustNewConstMetric_def const_metric_def)

lemma send_all:
  assumes "\<not> panicked st" "rd st s = lvs"
    "\<forall>(d, v) \<in> set es. length (variableLabels d) = length lvs"
  shows "fold (\<lambda>(d, v) st. send d vt v (rd st s) st) es st =
     st\<lparr>sent := sent st @ map (\<lambda>(d, v). const_metric d vt v lvs) es\<rparr>"
  using assms
proof (induction es arbitrary: st)
  case Nil
  then show ?case by simp
next
  case (Cons e es)
  obtain d v where e: "e = (d, v)" by (cases e)
  let ?st = "st\<lparr>sent := sent st @ [const_metric d vt v lvs]\<rparr>"
  have 1: "send d vt v (rd st s) st = ?st"
    using Cons.prems e by (simp add: send_ok)
  have "fold (\<lambda>(d, v) st. send d vt v (rd st s) st) es ?st =
     ?st\<lparr>sent := sent ?st @ map (\<lambda>(d, v). const_metric d vt v lvs) es\<rparr>"
    using Cons.prems by (intro Cons.IH) (simp_all add: rd_def)
  then show ?case using 1 e by simp
qed


lemma percpu_loop:
  fixes rt :: runtime
  assumes "\<not> panicked st" "tracked (heap st) A" "i < length A" "A ! i = (labelVals, lvs)"
    "length (variableLabels d) = Suc (length lvs)"
  defines "body \<equiv> (\<lambda>(i, cpuUsage) st.
     (let cpu = Sprintf_d i;
          cpuUsageSeconds = fdiv (float64_of_uint64 cpuUsage) nanoSeconds;
          (cpuLabelVals, st) = app rt labelVals [cpu] st
      in send d CounterValue cpuUsageSeconds (rd st cpuLabelVals) st))"
  shows "sent (fold body (enumerate k us) st) =
       sent st @ map (\<lambda>(k, cpuUsage). const_metric d CounterValue
           (fdiv (float64_of_uint64 cpuUsage) nanoSeconds) (lvs @ [Sprintf_d k]))
         (enumerate k us) \<and>
     \<not> panicked (fold body (enumerate k us) st) \<and>
     tracked (heap (fold body (enumerate k us) st)) A"
  using assms(1,2)
proof (induction us arbitrary: k st)
  case Nil
  then show ?case by simp
next
  case (Cons u us)
  obtain t st1 where 1: "app rt labelVals [Sprintf_d k] st = (t, st1)" by force
  note a = app_temp [OF 1 Cons.prems(2) assms(3,4)]
  let ?m = "const_metric d CounterValue (fdiv (float64_of_uint64 u) nanoSeconds)
      (lvs @ [Sprintf_d k])"
  let ?st2 = "st1\<lparr>sent := sent st1 @ [?m]\<rparr>"
  have b: "body (k, u) st = ?st2"
    using 1 a Cons.prems(1) assms(5) by (simp add: body_def send_ok)
  have "sent (fold body (enumerate (Suc k) us) ?st2) =
       sent ?st2 @ map (\<lambda>(k, cpuUsage). const_metric d CounterValue
           (fdiv (float64_of_uint64 cpuUsage) nanoSeconds) (lvs @ [Sprintf_d k]))
         (enumerate (Suc k) us) \<and>
     \<not> panicked (fold body (enumerate (Suc k) us) ?st2) \<and>
     tracked (heap (fold body (enumerate (Suc k) us) ?st2)) A"
    using a Cons.prems(1) by (intro Cons.IH) simp_all
  then show ?case using b a by simp
qed

lemma network_loop:
  fixes rt :: runtime and place :: "nat \<Rightarrow> nat list"
  assumes "\<not> panicked st" "tracked (heap st) A" "i < length A" "A ! i = (labelVals, lvs)"
    "\<And>netStats. \<forall>(d, v) \<in> set (entries netStats). length (variableLabels d) = Suc (length lvs)"
  defines "body \<equiv> (\<lambda>(j, (iface, netStats)) st.
     (let (networkLabelVals, st) = app rt labelVals [iface] st
      in fold (\<lambda>(d, v) st. send d CounterValue v (rd st networkLabelVals) st)
           (range_map rt (place j) (entries netStats)) st))"
  shows "sent (fold body (enumerate k nets) st) =
       sent st @ concat (map (\<lambda>(j, (iface, netStats)).
           map (\<lambda>(d, v). const_metric d CounterValue v (lvs @ [iface]))
             (range_map rt (place j) (entries netStats)))
         (enumerate k nets)) \<and>
     \<not> panicked (fold body (enumerate k nets) st) \<and>
     tracked (heap (fold body (enumerate k nets) st)) A"
  using assms(1,2)
proof (induction nets arbitrary: k st)
  case Nil
  then show ?case by simp
next
  case (Cons n nets)
  obtain iface netStats where n: "n = (iface, netStats)" by (cases n)
  obtain t st1 where 1: "app rt labelVals [iface] st = (t, st1)" by force
  note a = app_temp [OF 1 Cons.prems(2) assms(3,4)]
  let ?ms = "map (\<lambda>(d, v). const_metric d CounterValue v (lvs @ [iface]))
      (range_map rt (place k) (entries netStats))"
  let ?st2 = "st1\<lparr>sent := sent st1 @ ?ms\<rparr>"
  have "\<forall>(d, v) \<in> set (range_map rt (place k) (entries netStats)).
      length (variableLabels d) = length (lvs @ [iface])"
    using assms(5) [of netStats] by (simp add: set_range_map)
  then have "fold (\<lambda>(d, v) st. send d CounterValue v (rd st t) st)
      (range_map rt (place k) (entries netStats)) st1 = ?st2"
    using a Cons.prems(1) by (intro send_all) simp_all
  then have b: "body (k, n) st = ?st2"
    using 1 n by (simp add: body_def)
  have "sent (fold body (enumerate (Suc k) nets) ?st2) =
       sent ?st2 @ concat (map (\<lambda>(j, (iface, netStats)).
           map (\<lambda>(d, v). const_metric d CounterValue v (lvs @ [iface]))
             (range_map rt (place j) (entries netStats)))
         (enumerate (Suc k) nets)) \<and>
     \<not> panicked (fold body (enumerate (Suc k) nets) ?st2) \<and>
     tracked (heap (fold body (enumerate (Suc k) nets) ?st2)) A"
    using a Cons.prems(1) by (intro Cons.IH) simp_all
  then show ?case using b a n by simp
qed

lemma collect_container_sent:
  assumes f: "fits g (length vals)" and np: "\<not> panicked st"
    and t: "tracked (heap st) [(customLabelValues c, vals)]"
  shows "sent (collect_container rt g c metadata stats (i, container) st) =
       sent st @ (case stats (DockerID container) of
                    None \<Rightarrow> []
                  | Some s \<Rightarrow> container_metrics rt g vals metadata i container s) \<and>
     \<not> panicked (collect_container rt g c metadata stats (i, container) st) \<and>
     tracked (heap (collect_container rt g c metadata stats (i, container) st))
       [(customLabelValues c, vals)]"
proof (cases "stats (DockerID container)")
  case None
  then show ?thesis using np t by (simp add: collect_container_def)
next
  case (Some s)
  let ?cv = "customLabelValues c"
  let ?LV = "[Name container, TaskID metadata] @ vals"
  obtain lv0 st1 where 1: "lit [Name container, TaskID metadata] st = (lv0, st1)" by force
  note l1 = lit_tracked [OF 1 t]
  have r1: "rd st1 ?cv = vals" using tracked_get(2) [OF l1(1), of 1] by (simp add: rd_def)
  obtain lv st2 where 2: "app rt lv0 vals st1 = (lv, st2)" by force
  let ?A = "[(lv, ?LV), (?cv, vals)]"
  have t2: "tracked (heap st2) ?A" and s2: "sent st2 = sent st" "\<not> panicked st2"
    using app_tracked [OF 2 l1(1), of 0] l1 np by simp_all
  have r2: "rd st2 lv = ?LV" using tracked_get(2) [OF t2, of 0] by (simp add: rd_def)
  define st3 where "st3 = send (cpuUtilizedDesc g) GaugeValue (cpu_usage_in_vcpu rt s) (rd st2 lv) st2"
  have st3: "st3 = st2\<lparr>sent := sent st2 @
      [const_metric (cpuUtilizedDesc g) GaugeValue (cpu_usage_in_vcpu rt s) ?LV]\<rparr>"
    unfolding st3_def using s2 r2 f by (intro send_ok [THEN trans]) (simp_all add: fits_def)
  define st4 where "st4 = fold (\<lambda>(i, cpuUsage) st.
     (let cpu = Sprintf_d i;
          cpuUsageSeconds = fdiv (float64_of_uint64 cpuUsage) nanoSeconds;
          (cpuLabelVals, st) = app rt lv [cpu] st
      in send (cpuTotalDesc g) CounterValue cpuUsageSeconds (rd st cpuLabelVals) st))
     (enumerate 0 (PercpuUsage (CPUUsage (CPUStats s)))) st3"
  have st4: "sent st4 = sent st3 @ map (\<lambda>(k, cpuUsage). const_metric (cpuTotalDesc g) CounterValue
           (fdiv (float64_of_uint64 cpuUsage) nanoSeconds) (?LV @ [Sprintf_d k]))
         (enumerate 0 (PercpuUsage (CPUUsage (CPUStats s))))"
    "\<not> panicked st4" "tracked (heap st4) ?A"
    unfolding st4_def
    using percpu_loop [of st3 ?A 0 lv ?LV "cpuTotalDesc g" rt 0 "PercpuUsage (CPUUsage (CPUStats s))"]
      st3 s2 t2 f by (simp_all add: fits_def)
  define st5 where "st5 = (case Stats (MemoryStats s) ''cache'' of
      None \<Rightarrow> st4
    | Some v \<Rightarrow> send (memoryUtilizedDesc g) GaugeValue
        (fdiv (fsub (float64_of_uint64 (Usage (MemoryStats s))) (float64_of_uint64 v)) bytesInMiB)
        (rd st4 lv) st4)"
  have r4: "rd st4 lv = ?LV" using tracked_get(2) [OF st4(3), of 0] by (simp add: rd_def)
  have st5: "st5 = st4\<lparr>sent := sent st4 @ (case Stats (MemoryStats s) ''cache'' of
       None \<Rightarrow> []
     | Some v \<Rightarrow> [const_metric (memoryUtilizedDesc g) GaugeValue
          (fdiv (fsub (float64_of_uint64 (Usage (MemoryStats s))) (float64_of_uint64 v)) bytesInMiB)
          ?LV])\<rparr>"
    unfolding st5_def using st4(2) r4 f
    by (cases "Stats (MemoryStats s) ''cache''") (simp_all add: send_ok fits_def)
  define st6 where "st6 = fold (\<lambda>(d, v) st. send d GaugeValue v (rd st lv) st)
      (range_map rt [i, 0] (memory_gauges g s)) st5"
  have "\<forall>(d, v) \<in> set (range_map rt [i, 0] (memory_gauges g s)).
      length (variableLabels d) = length ?LV"
    using f by (simp add: set_range_map memory_gauges_def fits_def)
  then have st6: "st6 = st5\<lparr>sent := sent st5 @ map (\<lambda>(d, v). const_metric d GaugeValue v ?LV)
      (range_map rt [i, 0] (memory_gauges g s))\<rparr>"
    unfolding st6_def using st5 st4(2) r4 by (intro send_all) (simp_all add: rd_def)
  define st7 where "st7 = fold (\<lambda>(j, (iface, netStats)) st.
     (let (networkLabelVals, st) = app rt lv [iface] st
      in fold (\<lambda>(d, v) st. send d CounterValue v (rd st networkLabelVals) st)
           (range_map rt [i, 2, j] (network_counters g netStats)) st))
     (enumerate 0 (range_map rt [i, 1] (Networks s))) st6"
  have p6: "\<not> panicked st6" "tracked (heap st6) ?A"
    using st6 st5 st4 by simp_all
  have st7: "sent st7 = sent st6 @ concat (map (\<lambda>(j, (iface, netStats)).
           map (\<lambda>(d, v). const_metric d CounterValue v (?LV @ [iface]))
             (range_map rt [i, 2, j] (network_counters g netStats)))
         (enumerate 0 (range_map rt [i, 1] (Networks s))))"
    "\<not> panicked st7" "tracked (heap st7) ?A"
    unfolding st7_def
    using network_loop [of st6 ?A 0 lv ?LV "network_counters g" rt "\<lambda>j. [i, 2, j]" 0
        "range_map rt [i, 1] (Networks s)"] p6 f
    by (simp_all add: fits_def network_counters_def)
  have eq: "collect_container rt g c metadata stats (i, container) st = st7"
    unfolding collect_container_def st7_def st6_def st5_def st4_def st3_def
      memory_gauges_def network_counters_def cache_value_def cpu_usage_in_vcpu_def
    using Some 1 2 r1
    by (simp add: Let_def split: option.split)
  have "tracked (heap st7) [(?cv, vals)]"
    using st7(3) by (auto simp: tracked_def nth_Cons split: nat.splits)
  moreover have "sent st7 = sent st @ container_metrics rt g vals metadata i container s"
    using st7(1) st6 st5 st4(1) st3 s2(1)
    by (cases "Stats (MemoryStats s) ''cache''") (simp_all add: container_metrics_def Let_def)
  ultimately show ?thesis using eq st7(2) Some by simp
qed

lemma containers_loop:
  assumes f: "fits g (length vals)"
    and "\<not> panicked st" "tracked (heap st) [(customLabelValues c, vals)]"
  shows "sent (fold (collect_container rt g c metadata stats) (enumerate k cs) st) =
       sent st @ concat (map (\<lambda>(i, container). case stats (DockerID container) of
                                None \<Rightarrow> []
                              | Some s \<Rightarrow> container_metrics rt g vals metadata i container s)
                          (enumerate k cs)) \<and>
     \<not> panicked (fold (collect_container rt g c metadata stats) (enumerate k cs) st)"
  using assms(2,3)
proof (induction cs arbitrary: k st)
  case Nil
  then show ?case by simp
next
  case (Cons ct cs)
  note b = collect_container_sent [OF f Cons.prems, of rt metadata stats k ct]
  from b have "\<not> panicked (collect_container rt g c metadata stats (k, ct) st)"
    and "tracked (heap (collect_container rt g c metadata stats (k, ct) st))
       [(customLabelValues c, vals)]"
    by simp_all
  from Cons.IH [OF this, of "Suc k"] b show ?case by simp
qed

lemma Collect_metadata_fails:
  assumes "RetrieveTaskMetadata w (client c) = Returns (p, Some e)"
  shows "collector_Collect rt w g c h = \<lparr>sent = [], panicked = False, heap = h\<rparr>"
  using assms by (cases p) (simp_all add: collector_Collect_def)

lemma Collect_task_metrics:
  assumes m: "RetrieveTaskMetadata w (client c) = Returns (Some metadata, None)"
    and f: "fits g (length vals)" and t: "tracked h [(customLabelValues c, vals)]"
  shows "\<exists>st. sent st = task_metrics g vals metadata \<and> \<not> panicked st \<and>
      tracked (heap st) [(customLabelValues c, vals)] \<and>
      collector_Collect rt w g c h =
        (case RetrieveTaskStats w (client c) of
           (stats, Some err) \<Rightarrow> st
         | (stats, None) \<Rightarrow>
             fold (collect_container rt g c metadata stats) (enumerate 0 (Containers metadata)) st)"
proof -
  let ?cv = "customLabelValues c"
  let ?st0 = "\<lparr>sent = [], panicked = False, heap = h\<rparr>"
  let ?M = "[Cluster metadata, TaskARN metadata, Family metadata, Revision metadata,
       DesiredStatus metadata, KnownStatus metadata, PullStartedAt metadata,
       PullStoppedAt metadata, AvailabilityZone metadata, LaunchType metadata,
       TaskID metadata]"
  let ?S = "[TaskARN metadata, TaskID metadata]"
  have t0: "tracked (heap ?st0) [(?cv, vals)]" using t by simp
  obtain m0 st1 where 1: "lit ?M ?st0 = (m0, st1)" by force
  note l1 = lit_tracked [OF 1 t0]
  have r1: "rd st1 ?cv = vals" using tracked_get(2) [OF l1(1), of 1] by (simp add: rd_def)
  obtain m1 st2 where 2: "app rt m0 vals st1 = (m1, st2)" by force
  have t2: "tracked (heap st2) [(m1, ?M @ vals), (?cv, vals)]"
    and s2: "sent st2 = []" "\<not> panicked st2"
    using app_tracked [OF 2 l1(1), of 0] l1 by simp_all
  have r2: "rd st2 m1 = ?M @ vals" using tracked_get(2) [OF t2, of 0] by (simp add: rd_def)
  define st3 where "st3 = send (metadataDesc g) GaugeValue (Finite 1) (rd st2 m1) st2"
  have st3: "st3 = st2\<lparr>sent := [const_metric (metadataDesc g) GaugeValue (Finite 1) (?M @ vals)]\<rparr>"
    unfolding st3_def using s2 r2 f by (intro send_ok [THEN trans]) (simp_all add: fits_def)
  have t3: "tracked (heap st3) [(?cv, vals)]"
    using t2 st3 by (auto simp: tracked_def nth_Cons split: nat.splits)
  obtain v0 st4 where 4: "lit ?S st3 = (v0, st4)" by force
  note l4 = lit_tracked [OF 4 t3]
  have r4: "rd st4 ?cv = vals" using tracked_get(2) [OF l4(1), of 1] by (simp add: rd_def)
  obtain v1 st5 where 5: "app rt v0 vals st4 = (v1, st5)" by force
  have t5: "tracked (heap st5) [(v1, ?S @ vals), (?cv, vals)]"
    and s5: "sent st5 = sent st3" "\<not> panicked st5"
    using app_tracked [OF 5 l4(1), of 0] l4 st3 s2 by simp_all
  have r5: "rd st5 v1 = ?S @ vals" using tracked_get(2) [OF t5, of 0] by (simp add: rd_def)
  define st6 where "st6 = send (svcCpuLimitDesc g) GaugeValue
      (fmul (CPU (Limits metadata)) (Finite 1024)) (rd st5 v1) st5"
  have st6: "st6 = st5\<lparr>sent := sent st5 @ [const_metric (svcCpuLimitDesc g) GaugeValue
      (fmul (CPU (Limits metadata)) (Finite 1024)) (?S @ vals)]\<rparr>"
    unfolding st6_def using s5 r5 f by (intro send_ok [THEN trans]) (simp_all add: fits_def)
  define st7 where "st7 = send (svcMemLimitDesc g) GaugeValue (Memory (Limits metadata))
      (rd st6 v1) st6"
  have r6: "rd st6 v1 = ?S @ vals" using r5 st6 by (simp add: rd_def)
  have st7: "st7 = st6\<lparr>sent := sent st6 @ [const_metric (svcMemLimitDesc g) GaugeValue
      (Memory (Limits metadata)) (?S @ vals)]\<rparr>"
    unfolding st7_def using s5 st6 r6 f by (intro send_ok [THEN trans]) (simp_all add: fits_def)
  have "sent st7 = task_metrics g vals metadata"
    using st7 st6 s5 st3 by (simp add: task_metrics_def)
  moreover have "\<not> panicked st7" using st7 st6 s5 by simp
  moreover have "tracked (heap st7) [(?cv, vals)]"
    using t5 st7 st6 by (auto simp: tracked_def nth_Cons split: nat.splits)
  moreover have "collector_Collect rt w g c h =
        (case RetrieveTaskStats w (client c) of
           (stats, Some err) \<Rightarrow> st7
         | (stats, None) \<Rightarrow>
             fold (collect_container rt g c metadata stats) (enumerate 0 (Containers metadata)) st7)"
    unfolding collector_Collect_def st7_def st6_def st3_def
    using m 1 2 4 [unfolded st3_def] 5 r1 r4 by (simp add: Let_def)
  ultimately show ?thesis by blast
qed

lemma Collect_stats_fails:
  assumes "RetrieveTaskMetadata w (client c) = Returns (Some metadata, None)"
    and "RetrieveTaskStats w (client c) = (stats, Some e)"
    and "fits g (length vals)" and "tracked h [(customLabelValues c, vals)]"
  shows "sent (collector_Collect rt w g c h) = task_metrics g vals metadata"
    "\<not> panicked (collector_Collect rt w g c h)"
  using Collect_task_metrics [OF assms(1,3,4), of rt] assms(2) by auto

lemma Collect_sent:
  assumes "RetrieveTaskMetadata w (client c) = Returns (Some metadata, None)"
    and "RetrieveTaskStats w (client c) = (stats, None)"
    and "fits g (length vals)" and "tracked h [(customLabelValues c, vals)]"
  shows "sent (collector_Collect rt w g c h) =
       task_metrics g vals metadata @
       concat (map (\<lambda>(i, container). case stats (DockerID container) of
                      None \<Rightarrow> []
                    | Some s \<Rightarrow> container_metrics rt g vals metadata i container s)
                (enumerate 0 (Containers metadata)))"
    "\<not> panicked (collector_Collect rt w g c h)"
proof -
  obtain st where st: "sent st = task_metrics g vals metadata" "\<not> panicked st"
      "tracked (heap st) [(customLabelValues c, vals)]"
      "collector_Collect rt w g c h =
         fold (collect_container rt g c metadata stats) (enumerate 0 (Containers metadata)) st"
    using Collect_task_metrics [OF assms(1,3,4), of rt] assms(2) by auto
  note l = containers_loop [OF assms(3) st(2,3), of rt metadata stats 0 "Containers metadata"]
  show "sent (collector_Collect rt w g c h) =
       task_metrics g vals metadata @
       concat (map (\<lambda>(i, container). case stats (DockerID container) of
                      None \<Rightarrow> []
                    | Some s \<Rightarrow> container_metrics rt g vals metadata i container s)
                (enumerate 0 (Containers metadata)))"
    using l st(1,4) by simp
  show "\<not> panicked (collector_Collect rt w g c h)" using l st(4) by simp
qed

subsection \<open>The catalogue NewCollector builds\<close>

lemma NewCollector_catalogue:
  assumes n: "NewCollector rt cl customLabels h0 = (c, g, h)"
  defines "ks \<equiv> map fst (range_map rt [] customLabels)"
    and "vs \<equiv> map snd (range_map rt [] customLabels)"
  shows "client c = cl"
    and "tracked h [(customLabelValues c, vs)]"
    and "variableLabels (metadataDesc g) = fixed_metadata @ ks"
    and "variableLabels (svcCpuLimitDesc g) = [''task_arn'', ''task_id''] @ ks"
    and "variableLabels (svcMemLimitDesc g) = [''task_arn'', ''task_id''] @ ks"
    and "variableLabels (cpuTotalDesc g) = [''container'', ''task_id''] @ ks @ [''cpu'']"
    and "variableLabels (cpuUtilizedDesc g) = [''container'', ''task_id''] @ ks"
    and "variableLabels (memoryUtilizedDesc g) = [''container'', ''task_id''] @ ks"
    and "variableLabels (memUsageDesc g) = [''container'', ''task_id''] @ ks"
    and "variableLabels (memLimitDesc g) = [''container'', ''task_id''] @ ks"
    and "variableLabels (memCacheUsageDesc g) = [''container'', ''task_id''] @ ks"
    and "\<forall>d \<in> {networkRxBytesDesc g, networkRxPacketsDesc g, networkRxDroppedDesc g,
            networkRxErrorsDesc g, networkTxBytesDesc g, networkTxPacketsDesc g,
            networkTxDroppedDesc g, networkTxErrorsDesc g}.
          variableLabels d = [''container'', ''task_id''] @ ks @
            [if customLabels \<noteq> [] \<and>
                length customLabels + 2 < growcap rt 2 (length customLabels + 2)
             then ''cpu'' else ''device'']"
proof -
  obtain mL sL L nL cL cv h' where b: "build_labels rt customLabels h0 = ((mL, sL, L, nL, cL, cv), h')"
    by (cases "build_labels rt customLabels h0") auto
  note e = build_labels_elems [OF b, folded ks_def vs_def]
  have c: "c = \<lparr>client = cl, customLabelValues = cv\<rparr>" and h: "h = h'"
    using n b by (simp_all add: NewCollector_def)
  show "client c = cl" using c by simp
  show "tracked h [(customLabelValues c, vs)]"
    using e(6,7) c h by (intro tracked_Cons) simp_all
  show "variableLabels (metadataDesc g) = fixed_metadata @ ks"
    and "variableLabels (svcCpuLimitDesc g) = [''task_arn'', ''task_id''] @ ks"
    and "variableLabels (svcMemLimitDesc g) = [''task_arn'', ''task_id''] @ ks"
    and "variableLabels (cpuTotalDesc g) = [''container'', ''task_id''] @ ks @ [''cpu'']"
    and "variableLabels (cpuUtilizedDesc g) = [''container'', ''task_id''] @ ks"
    and "variableLabels (memoryUtilizedDesc g) = [''container'', ''task_id''] @ ks"
    and "variableLabels (memUsageDesc g) = [''container'', ''task_id''] @ ks"
    and "variableLabels (memLimitDesc g) = [''container'', ''task_id''] @ ks"
    and "variableLabels (memCacheUsageDesc g) = [''container'', ''task_id''] @ ks"
    using n b e(1-4) by (auto simp: NewCollector_def NewDesc_def)
  show "\<forall>d \<in> {networkRxBytesDesc g, networkRxPacketsDesc g, networkRxDroppedDesc g,
            networkRxErrorsDesc g, networkTxBytesDesc g, networkTxPacketsDesc g,
            networkTxDroppedDesc g, networkTxErrorsDesc g}.
          variableLabels d = [''container'', ''task_id''] @ ks @
            [if customLabels \<noteq> [] \<and>
                length customLabels + 2 < growcap rt 2 (length customLabels + 2)
             then ''cpu'' else ''device'']"
    using n b e(5) by (auto simp: NewCollector_def NewDesc_def)
qed

lemma NewCollector_fits:
  assumes "NewCollector rt cl customLabels h0 = (c, g, h)"
  shows "fits g (length customLabels)"
  using NewCollector_catalogue [OF assms]
  by (auto simp: fits_def fixed_metadata_def length_range_map)

lemma NewCollector_names:
  assumes "NewCollector rt cl customLabels h0 = (c, g, h)"
  shows "map fqName [metadataDesc g, svcCpuLimitDesc g, svcMemLimitDesc g, cpuTotalDesc g,
      cpuUtilizedDesc g, memoryUtilizedDesc g, memUsageDesc g, memLimitDesc g,
      memCacheUsageDesc g, networkRxBytesDesc g, networkRxPacketsDesc g, networkRxDroppedDesc g,
      networkRxErrorsDesc g, networkTxBytesDesc g, networkTxPacketsDesc g,
      networkTxDroppedDesc g, networkTxErrorsDesc g] =
    [''ecs_metadata_info'', ''ecs_svc_cpu_limit'', ''ecs_svc_memory_limit_bytes'',
     ''ecs_cpu_seconds_total'', ''ecs_cpu_utilized'', ''ecs_memory_utilized_mega_bytes'',
     ''ecs_memory_bytes'', ''ecs_memory_limit_bytes'', ''ecs_memory_cache_usage'',
     ''ecs_network_receive_bytes_total'', ''ecs_network_receive_packets_total'',
     ''ecs_network_receive_dropped_total'', ''ecs_network_receive_errors_total'',
     ''ecs_network_transmit_bytes_total'', ''ecs_network_transmit_packets_total'',
     ''ecs_network_transmit_dropped_total'', ''ecs_network_transmit_errors_total'']"
  using assms by (auto simp: NewCollector_def NewDesc_def split: prod.splits)

subsection \<open>Selecting the metrics of one descriptor\<close>



lemma concat_map_enumerate: "concat (map (\<lambda>(i, x). f x) (enumerate k xs)) = concat (map f xs)"
  by (induction xs arbitrary: k) simp_all

lemma concat_map_Nil: "(\<And>x. x \<in> set xs \<Longrightarrow> f x = []) \<Longrightarrow> concat (map f xs) = []"
  by (induction xs) auto

lemma desc_const_metric [simp]: "desc (const_metric d vt v lvs) = d"
  by (simp add: const_metric_def)



text \<open>The names of the descriptors, as \<open>NewCollector\<close> gives them.\<close>

lemma NewCollector_fqName:
  assumes "NewCollector rt cl customLabels h0 = (c, g, h)"
  shows "fqName (metadataDesc g) = ''ecs_metadata_info''"
    "fqName (svcCpuLimitDesc g) = ''ecs_svc_cpu_limit''"
    "fqName (svcMemLimitDesc g) = ''ecs_svc_memory_limit_bytes''"
    "fqName (cpuTotalDesc g) = ''ecs_cpu_seconds_total''"
    "fqName (cpuUtilizedDesc g) = ''ecs_cpu_utilized''"
    "fqName (memoryUtilizedDesc g) = ''ecs_memory_utilized_mega_bytes''"
    "fqName (memUsageDesc g) = ''ecs_memory_bytes''"
    "fqName (memLimitDesc g) = ''ecs_memory_limit_bytes''"
    "fqName (memCacheUsageDesc g) = ''ecs_memory_cache_usage''"
    "fqName (networkRxBytesDesc g) = ''ecs_network_receive_bytes_total''"
    "fqName (networkRxPacketsDesc g) = ''ecs_network_receive_packets_total''"
    "fqName (networkRxDroppedDesc g) = ''ecs_network_receive_dropped_total''"
    "fqName (networkRxErrorsDesc g) = ''ecs_network_receive_errors_total''"
    "fqName (networkTxBytesDesc g) = ''ecs_network_transmit_bytes_total''"
    "fqName (networkTxPacketsDesc g) = ''ecs_network_transmit_packets_total''"
    "fqName (networkTxDroppedDesc g) = ''ecs_network_transmit_dropped_total''"
    "fqName (networkTxErrorsDesc g) = ''ecs_network_transmit_errors_total''"
  using NewCollector_names [OF assms] by simp_all









lemma Collect_not_panicked:
  assumes n: "NewCollector rt cl customLabels h0 = (c, g, h)"
  shows "\<not> panicked (collector_Collect rt w g c h)"
proof -
  note cat = NewCollector_catalogue [OF n]
  have fits: "fits g (length (map snd (range_map rt [] customLabels)))"
    using NewCollector_fits [OF n] by (simp add: length_range_map)
  obtain out err md where r: "RetrieveTaskMetadata w cl = Returns (Some md, err)"
    by (cases "request (get_task w (endpoint cl @ ''/task'')) TaskMetadata_zero")
       (simp add: RetrieveTaskMetadata_def SetTaskID_Returns)
  show ?thesis
  proof (cases err)
    case (Some e)
    then show ?thesis using Collect_metadata_fails [of w c "Some md" e] r cat(1) by simp
  next
    case None
    obtain stats serr where s: "RetrieveTaskStats w cl = (stats, serr)" by force
    show ?thesis
    proof (cases serr)
      case None
      show ?thesis
        using Collect_sent(2) [OF _ _ fits cat(2), of w md stats rt] r s None \<open>err = None\<close> cat(1)
        by simp
    next
      case (Some e)
      show ?thesis
        using Collect_stats_fails(2) [OF _ _ fits cat(2), of w md stats e rt] r s Some
          \<open>err = None\<close> cat(1)
        by simp
    qed
  qed
qed

section \<open>The example inputs, evaluated\<close>

lemma example_NewCollector:
  "NewCollector example_runtime example_client [(''env'', ''prod'')] [] =
     (fst example_collector, fst (snd example_collector), snd (snd example_collector))"
  by (simp add: example_collector_def)

lemma example_RetrieveTaskMetadata:
  "RetrieveTaskMetadata example_world example_client =
     Returns (Some (example_metadata\<lparr>TaskID := ''158d1c8083dd''\<rparr>), None)"
  by (simp add: RetrieveTaskMetadata_def example_world_def example_client_def SetTaskID_Returns
      example_metadata_def TaskMetadata_zero_def)

lemma example_RetrieveTaskStats:
  "RetrieveTaskStats example_world example_client = (example_stats_map, None)"
  by (simp add: RetrieveTaskStats_def example_world_def example_client_def)

lemma example_range_map:
  "range_map example_runtime place [a] = [a]"
  "range_map example_runtime place [a, b] = [b, a]"
  "range_map example_runtime place [a, b, c] = [c, b, a]"
  "range_map example_runtime place [a1, a2, a3, a4, a5, a6, a7, a8] = [a8, a7, a6, a5, a4, a3, a2, a1]"
  "range_map example_runtime place [] = []"
  by (simp_all add: range_map_def example_runtime_def upt_rec)

lemma example_time_Parse:
  "time_Parse example_runtime layout ''2024-01-01T00:00:01Z'' = (63839664001000000000, None)"
  "time_Parse example_runtime layout ''2024-01-01T00:00:00Z'' = (63839664000000000000, None)"
  "time_Parse example_runtime layout ''yesterday'' = (0, Some ParseError)"
  "time_Parse example_runtime layout [] = (0, Some ParseError)"
  by (simp_all add: example_runtime_def)

lemma example_fqName:
  "fqName (metadataDesc (fst (snd example_collector))) = ''ecs_metadata_info''"
  "fqName (svcCpuLimitDesc (fst (snd example_collector))) = ''ecs_svc_cpu_limit''"
  "fqName (svcMemLimitDesc (fst (snd example_collector))) = ''ecs_svc_memory_limit_bytes''"
  "fqName (cpuTotalDesc (fst (snd example_collector))) = ''ecs_cpu_seconds_total''"
  "fqName (cpuUtilizedDesc (fst (snd example_collector))) = ''ecs_cpu_utilized''"
  "fqName (memoryUtilizedDesc (fst (snd example_collector))) = ''ecs_memory_utilized_mega_bytes''"
  "fqName (memUsageDesc (fst (snd example_collector))) = ''ecs_memory_bytes''"
  "fqName (memLimitDesc (fst (snd example_collector))) = ''ecs_memory_limit_bytes''"
  "fqName (memCacheUsageDesc (fst (snd example_collector))) = ''ecs_memory_cache_usage''"
  "fqName (networkRxBytesDesc (fst (snd example_collector))) = ''ecs_network_receive_bytes_total''"
  "fqName (networkRxPacketsDesc (fst (snd example_collector))) = ''ecs_network_receive_packets_total''"
  "fqName (networkRxDroppedDesc (fst (snd example_collector))) = ''ecs_network_receive_dropped_total''"
  "fqName (networkRxErrorsDesc (fst (snd example_collector))) = ''ecs_network_receive_errors_total''"
  "fqName (networkTxBytesDesc (fst (snd example_collector))) = ''ecs_network_transmit_bytes_total''"
  "fqName (networkTxPacketsDesc (fst (snd example_collector))) = ''ecs_network_transmit_packets_total''"
  "fqName (networkTxDroppedDesc (fst (snd example_collector))) = ''ecs_network_transmit_dropped_total''"
  "fqName (networkTxErrorsDesc (fst (snd example_collector))) = ''ecs_network_transmit_errors_total''"
  by (rule NewCollector_fqName [OF example_NewCollector])+

lemmas example_defs = example_metadata_def example_container_def example_stats_map_def
  example_stats_def example_range_map example_time_Parse



lemma example_growcap: "growcap example_runtime c n = (if 2 * c < n then n else 2 * c)"
  by (simp add: example_runtime_def)

lemmas NewCollector_eval = NewCollector_def build_labels_def slice_lit_def append_go_def
  elems_def nil_slice_def NewDesc_def example_range_map example_growcap Let_def

section \<open>The claims about the collector\<close>




lemma Collect_sent_NewCollector:
  assumes "NewCollector rt cl customLabels h0 = (c, g, h)"
    and "RetrieveTaskMetadata w cl = Returns (Some metadata, None)"
    and "RetrieveTaskStats w cl = (stats, None)"
  shows "sent (collector_Collect rt w g c h) =
       task_metrics g (map snd (range_map rt [] customLabels)) metadata @
       concat (map (\<lambda>(i, container). case stats (DockerID container) of
                      None \<Rightarrow> []
                    | Some s \<Rightarrow> container_metrics rt g (map snd (range_map rt [] customLabels))
                                 metadata i container s)
                (enumerate 0 (Containers metadata)))"
    and "\<not> panicked (collector_Collect rt w g c h)"
proof -
  note cat = NewCollector_catalogue [OF assms(1)]
  have fits: "fits g (length (map snd (range_map rt [] customLabels)))"
    using NewCollector_fits [OF assms(1)] by (simp add: length_range_map)
  show "sent (collector_Collect rt w g c h) =
       task_metrics g (map snd (range_map rt [] customLabels)) metadata @
       concat (map (\<lambda>(i, container). case stats (DockerID container) of
                      None \<Rightarrow> []
                    | Some s \<Rightarrow> container_metrics rt g (map snd (range_map rt [] customLabels))
                                 metadata i container s)
                (enumerate 0 (Containers metadata)))"
    and "\<not> panicked (collector_Collect rt w g c h)"
    using Collect_sent [OF _ _ fits cat(2), of w metadata stats rt] assms(2,3) cat(1)
    by simp_all
qed










text \<open>
  Claim C5 where the code breaks it. The last label name of the network descriptors is
  \<open>cpu\<close>, not \<open>device\<close>, exactly when there is a custom label and \<open>append\<close> gave the
  slice \<open>labels\<close> more capacity than its length. So it is with one custom label,
  \<open>env=prod\<close>, in the example. The slice
  \<open>labels\<close> then has length 3 and capacity 4, so \<open>append(labels, "device")\<close> and
  \<open>append(labels, "cpu")\<close> write into the same array, and the second overwrites the
  first: the eight network descriptors get the label names \<open>container, task_id, env, cpu\<close>,
  and the network metrics of \<open>Collect\<close> carry the interface name \<open>eth0\<close> at the position of
  the name \<open>cpu\<close>. With no custom label and with two, where \<open>labels\<close> has no spare
  capacity, the last name is \<open>device\<close>.
\<close>

theorem network_labels_one_custom_label:
  "variableLabels (networkRxBytesDesc (fst (snd (NewCollector rt cl customLabels h0)))) =
     [''container'', ''task_id''] @ map fst (range_map rt [] customLabels) @
     [if customLabels \<noteq> [] \<and>
         length customLabels + 2 < growcap rt 2 (length customLabels + 2)
      then ''cpu'' else ''device''] \<and>
   map variableLabels
     [networkRxBytesDesc (fst (snd example_collector)),
      networkRxPacketsDesc (fst (snd example_collector)),
      networkRxDroppedDesc (fst (snd example_collector)),
      networkRxErrorsDesc (fst (snd example_collector)),
      networkTxBytesDesc (fst (snd example_collector)),
      networkTxPacketsDesc (fst (snd example_collector)),
      networkTxDroppedDesc (fst (snd example_collector)),
      networkTxErrorsDesc (fst (snd example_collector))] =
     replicate 8 [''container'', ''task_id'', ''env'', ''cpu''] \<and>
   map (\<lambda>m. zip (variableLabels (desc m)) (labelValues m))
     (filter (\<lambda>m. fqName (desc m) = ''ecs_network_receive_bytes_total'')
       (sent (collector_Collect example_runtime example_world (fst (snd example_collector))
          (fst example_collector) (snd (snd example_collector))))) =
     [[(''container'', ''web''), (''task_id'', ''158d1c8083dd''), (''env'', ''prod''),
       (''cpu'', ''eth0'')]] \<and>
   variableLabels (networkRxBytesDesc
     (fst (snd (NewCollector example_runtime example_client [] [])))) =
     [''container'', ''task_id'', ''device''] \<and>
   variableLabels (networkRxBytesDesc
     (fst (snd (NewCollector example_runtime example_client
        [(''env'', ''prod''), (''team'', ''core'')] [])))) =
     [''container'', ''task_id'', ''team'', ''env'', ''device'']"
proof -
  have 0: "variableLabels (networkRxBytesDesc (fst (snd (NewCollector rt cl customLabels h0)))) =
     [''container'', ''task_id''] @ map fst (range_map rt [] customLabels) @
     [if customLabels \<noteq> [] \<and>
         length customLabels + 2 < growcap rt 2 (length customLabels + 2)
      then ''cpu'' else ''device'']"
    using NewCollector_catalogue(12) [of rt cl customLabels h0
        "fst (NewCollector rt cl customLabels h0)" "fst (snd (NewCollector rt cl customLabels h0))"
        "snd (snd (NewCollector rt cl customLabels h0))"]
    by simp
  have 1: "map variableLabels
     [networkRxBytesDesc (fst (snd example_collector)),
      networkRxPacketsDesc (fst (snd example_collector)),
      networkRxDroppedDesc (fst (snd example_collector)),
      networkRxErrorsDesc (fst (snd example_collector)),
      networkTxBytesDesc (fst (snd example_collector)),
      networkTxPacketsDesc (fst (snd example_collector)),
      networkTxDroppedDesc (fst (snd example_collector)),
      networkTxErrorsDesc (fst (snd example_collector))] =
     replicate 8 [''container'', ''task_id'', ''env'', ''cpu'']"
    by (simp add: example_collector_def NewCollector_eval eval_nat_numeral)
  have 2: "map (\<lambda>m. zip (variableLabels (desc m)) (labelValues m))
     (filter (\<lambda>m. fqName (desc m) = ''ecs_network_receive_bytes_total'')
       (sent (collector_Collect example_runtime example_world (fst (snd example_collector))
          (fst example_collector) (snd (snd example_collector))))) =
     [[(''container'', ''web''), (''task_id'', ''158d1c8083dd''), (''env'', ''prod''),
       (''cpu'', ''eth0'')]]"
    using 1
    by (simp add: Collect_sent_NewCollector [OF example_NewCollector example_RetrieveTaskMetadata
          example_RetrieveTaskStats]
        example_defs example_fqName task_metrics_def container_metrics_def
        memory_gauges_def network_counters_def const_metric_def TaskMetadata_zero_def Let_def
        eval_nat_numeral)
  have 3: "variableLabels (networkRxBytesDesc
     (fst (snd (NewCollector example_runtime example_client [] [])))) =
     [''container'', ''task_id'', ''device'']"
    by (simp add: NewCollector_eval)
  have 4: "variableLabels (networkRxBytesDesc
     (fst (snd (NewCollector example_runtime example_client
        [(''env'', ''prod''), (''team'', ''core'')] [])))) =
     [''container'', ''task_id'', ''team'', ''env'', ''device'']"
    by (simp add: NewCollector_eval)
  from 0 1 2 3 4 show ?thesis by (intro conjI)
qed

text \<open>
  Claim C6, as stated, fails: the order of the custom label names is the order in which the
  range statement over the map visits its entries, which is the runtime's choice. Two
  constructions from the same two entries, one visiting them in one order and one in the
  other, give different label names to \<open>ecs_metadata_info\<close>.
\<close>

theorem NewCollector_order_counterexample:
  "variableLabels (metadataDesc (fst (snd (NewCollector example_runtime example_client
      [(''env'', ''prod''), (''team'', ''core'')] [])))) =
     [''cluster'', ''task_arn'', ''family'', ''revision'', ''desired_status'',
      ''known_status'', ''pull_started_at'', ''pull_stopped_at'',
      ''availability_zone'', ''launch_type'', ''task_id'', ''team'', ''env''] \<and>
   variableLabels (metadataDesc (fst (snd (NewCollector
      (example_runtime\<lparr>rangeOrder := \<lambda>place n. [0..<n]\<rparr>) example_client
      [(''env'', ''prod''), (''team'', ''core'')] [])))) =
     [''cluster'', ''task_arn'', ''family'', ''revision'', ''desired_status'',
      ''known_status'', ''pull_started_at'', ''pull_stopped_at'',
      ''availability_zone'', ''launch_type'', ''task_id'', ''env'', ''team'']"
proof -
  have r: "range_map (example_runtime\<lparr>rangeOrder := \<lambda>place n. [0..<n]\<rparr>) place [a, b] = [a, b]"
    for place and a b :: "string \<times> string"
    by (simp add: range_map_def)
  have n: "NewCollector rt example_client kvs [] =
      (fst (NewCollector rt example_client kvs []),
       fst (snd (NewCollector rt example_client kvs [])),
       snd (snd (NewCollector rt example_client kvs [])))" for rt kvs
    by simp
  show ?thesis
    using NewCollector_catalogue(3) [OF n, of example_runtime "[(''env'', ''prod''), (''team'', ''core'')]"]
      NewCollector_catalogue(3) [OF n, of "example_runtime\<lparr>rangeOrder := \<lambda>place n. [0..<n]\<rparr>"
        "[(''env'', ''prod''), (''team'', ''core'')]"]
    by (simp add: example_range_map r fixed_metadata_def)
qed

text \<open>
  Claim C6, amended. The custom label names are appended to the label names of every
  descriptor in the order in which the one range statement of \<open>NewCollector\<close> visits the
  entries of the map (\<open>es\<close>, a permutation of the entries), and the custom values of the
  collector are the values of the entries in that same order; a map of at most one entry
  has one order only. (The last label name of the network descriptors is left open here.)
\<close>

theorem NewCollector_custom_label_order:
  assumes "NewCollector rt cl customLabels h0 = (c, g, h)"
  shows "\<exists>es z. mset es = mset customLabels \<and> es = range_map rt [] customLabels \<and>
      (length customLabels \<le> 1 \<longrightarrow> es = customLabels) \<and>
      elems h (customLabelValues c) = map snd es \<and>
      variableLabels (metadataDesc g) =
        [''cluster'', ''task_arn'', ''family'', ''revision'', ''desired_status'',
         ''known_status'', ''pull_started_at'', ''pull_stopped_at'',
         ''availability_zone'', ''launch_type'', ''task_id''] @ map fst es \<and>
      variableLabels (svcCpuLimitDesc g) = [''task_arn'', ''task_id''] @ map fst es \<and>
      variableLabels (svcMemLimitDesc g) = [''task_arn'', ''task_id''] @ map fst es \<and>
      variableLabels (cpuTotalDesc g) = [''container'', ''task_id''] @ map fst es @ [''cpu''] \<and>
      variableLabels (cpuUtilizedDesc g) = [''container'', ''task_id''] @ map fst es \<and>
      variableLabels (memoryUtilizedDesc g) = [''container'', ''task_id''] @ map fst es \<and>
      variableLabels (memUsageDesc g) = [''container'', ''task_id''] @ map fst es \<and>
      variableLabels (memLimitDesc g) = [''container'', ''task_id''] @ map fst es \<and>
      variableLabels (memCacheUsageDesc g) = [''container'', ''task_id''] @ map fst es \<and>
      map variableLabels
        [networkRxBytesDesc g, networkRxPacketsDesc g, networkRxDroppedDesc g,
         networkRxErrorsDesc g, networkTxBytesDesc g, networkTxPacketsDesc g,
         networkTxDroppedDesc g, networkTxErrorsDesc g] =
        replicate 8 ([''container'', ''task_id''] @ map fst es @ [z])"
proof -
  note cat = NewCollector_catalogue [OF assms]
  obtain z where z: "\<forall>d \<in> {networkRxBytesDesc g, networkRxPacketsDesc g, networkRxDroppedDesc g,
            networkRxErrorsDesc g, networkTxBytesDesc g, networkTxPacketsDesc g,
            networkTxDroppedDesc g, networkTxErrorsDesc g}.
          variableLabels d = [''container'', ''task_id''] @
            map fst (range_map rt [] customLabels) @ [z]"
    using cat(12) by blast
  have one: "range_map rt [] customLabels = customLabels" if "length customLabels \<le> 1"
  proof (cases customLabels)
    case Nil
    then show ?thesis using length_range_map [of rt "[]" customLabels] by simp
  next
    case (Cons kv rest)
    then have r: "rest = []" using that by simp
    have "mset (range_map rt [] [kv]) = {#kv#}" by (simp add: mset_range_map)
    then show ?thesis using Cons r by (simp only: mset_single_iff)
  qed
  have e: "elems h (customLabelValues c) = map snd (range_map rt [] customLabels)"
    using tracked_get(2) [OF cat(2), of 0] by simp
  show ?thesis
    apply (rule exI [of _ "range_map rt [] customLabels"])
    apply (rule exI [of _ z])
    using cat(3-11) z one e
    apply (simp add: mset_range_map fixed_metadata_def eval_nat_numeral)
    done
qed

theorem NewCollector_custom_label_order_witness:
  "elems (snd (snd example_collector)) (customLabelValues (fst example_collector)) = [''prod''] \<and>
   variableLabels (metadataDesc (fst (snd example_collector))) =
     [''cluster'', ''task_arn'', ''family'', ''revision'', ''desired_status'',
      ''known_status'', ''pull_started_at'', ''pull_stopped_at'',
      ''availability_zone'', ''launch_type'', ''task_id'', ''env''] \<and>
   variableLabels (cpuUtilizedDesc (fst (snd example_collector))) =
     [''container'', ''task_id'', ''env'']"
  using NewCollector_custom_label_order [OF example_NewCollector]
  by auto



end
